theory Spec2Isabelle
  imports Main "HOL-Library.Sublist"
begin

section \<open>JavaScript strings\<close>

text \<open>
  A JavaScript string is modelled as a \<^typ>\<open>string\<close>, one \<^typ>\<open>char\<close> per code unit.
  The string methods used by the gateway are written out below with the results the
  language gives them, including the index \<open>-1\<close> that \<open>lastIndexOf\<close> returns when
  nothing is found and the negative end index that \<open>slice\<close> counts from the end.
\<close>

definition endsWith :: "string \<Rightarrow> string \<Rightarrow> bool" where
  "endsWith s t = (length t \<le> length s \<and> drop (length s - length t) s = t)"

definition startsWith :: "string \<Rightarrow> string \<Rightarrow> bool" where
  "startsWith s t = (take (length t) s = t)"

fun lastIndexOf :: "string \<Rightarrow> char \<Rightarrow> int" where
  "lastIndexOf [] c = - 1"
| "lastIndexOf (x # xs) c =
     (let r = lastIndexOf xs c
      in if 0 \<le> r then r + 1 else if x = c then 0 else - 1)"

definition slice0 :: "string \<Rightarrow> int \<Rightarrow> string" where
  \<comment> \<open>\<open>s.slice(0, e)\<close>\<close>
  "slice0 s e =
     (if e < 0 then take (nat (max 0 (int (length s) + e))) s else take (nat e) s)"

fun split_on :: "char \<Rightarrow> string \<Rightarrow> string list" where
  \<comment> \<open>\<open>s.split(c)\<close> for a one-character separator\<close>
  "split_on c [] = [[]]"
| "split_on c (x # xs) =
     (if x = c then [] # split_on c xs
      else (case split_on c xs of
              [] \<Rightarrow> [[x]]
            | w # ws \<Rightarrow> (x # w) # ws))"

section \<open>Path Router (src/index.js, matchRoute)\<close>

record function_info =
  path :: string
  entry :: string
  handler :: "string option"
  worker :: "nat option"

text \<open>
  \<open>worker\<close> is a reference into the store of worker supervisors (it is unset until
  \<open>addWorker\<close> has run); \<open>handler\<close> is absent for a function given in the
  \<open>routes\<close> style.  The optional log sinks of a function are not modelled.
\<close>

definition exactPrefix :: "string \<Rightarrow> string" where
  "exactPrefix route = (let braceStart = lastIndexOf route (CHR ''{'') in slice0 route braceStart)"

definition matchRoute_test :: "string \<Rightarrow> string \<Rightarrow> bool" where
  \<comment> \<open>the callback handed to \<open>functions.find\<close>, for a function whose path is \<open>route\<close>\<close>
  "matchRoute_test route pathname =
     (let isPattern = endsWith route ''+}''
      in if \<not> isPattern \<and> pathname = route then True
         else if isPattern \<and> startsWith pathname (exactPrefix route)
                 \<and> pathname \<noteq> exactPrefix route then True
         else False)"

definition matchRoute :: "function_info list \<Rightarrow> string \<Rightarrow> function_info option" where
  "matchRoute functions pathname = List.find (\<lambda>fun. matchRoute_test (path fun) pathname) functions"

subsection \<open>The matching rule in the words of the specification\<close>

definition is_proxy_pattern :: "string \<Rightarrow> bool" where
  "is_proxy_pattern pattern = suffix ''+}'' pattern"

definition literal_prefix :: "string \<Rightarrow> string" where
  \<comment> \<open>the text before the last opening brace; a pattern without a brace loses its last character\<close>
  "literal_prefix pattern =
     (if CHR ''{'' \<in> set pattern
      then rev (tl (dropWhile (\<lambda>c. c \<noteq> CHR ''{'') (rev pattern)))
      else butlast pattern)"

definition pattern_matches :: "string \<Rightarrow> string \<Rightarrow> bool" where
  "pattern_matches pattern pathname =
     (if is_proxy_pattern pattern
      then prefix (literal_prefix pattern) pathname \<and> pathname \<noteq> literal_prefix pattern
      else pathname = pattern)"

section \<open>JavaScript values\<close>

text \<open>
  The values that cross the IPC channel and that the gateway reads from result objects:
  the JSON values, and \<open>undefined\<close> for a property that is absent.  A number is
  carried as an integer: the gateway only asks for its type and copies it.  An object
  value lists its own enumerable properties in enumeration order, each key once.
\<close>

datatype jsval =
    JUndefined
  | JNull
  | JBool bool
  | JNum int
  | JStr string
  | JArr "jsval list"
  | JObj "(string \<times> jsval) list"

datatype jstype = TUndefined | TObject | TBoolean | TNumber | TString

fun typeof :: "jsval \<Rightarrow> jstype" where
  "typeof JUndefined = TUndefined"
| "typeof JNull = TObject"
| "typeof (JBool b) = TBoolean"
| "typeof (JNum n) = TNumber"
| "typeof (JStr s) = TString"
| "typeof (JArr xs) = TObject"
| "typeof (JObj kvs) = TObject"

fun truthy :: "jsval \<Rightarrow> bool" where
  "truthy JUndefined = False"
| "truthy JNull = False"
| "truthy (JBool b) = b"
| "truthy (JNum n) = (n \<noteq> 0)"
| "truthy (JStr s) = (s \<noteq> [])"
| "truthy (JArr xs) = True"
| "truthy (JObj kvs) = True"

definition nullish :: "jsval \<Rightarrow> bool" where
  "nullish v = (v = JUndefined \<or> v = JNull)"

text \<open>
  A thrown exception.  \<open>ErrorWith m v\<close> is an \<open>Error\<close> whose message is the text
  \<open>m\<close> followed by the string form of the value \<open>v\<close> (the conversion to a string is
  not modelled); \<open>TypeError e\<close> is the engine's TypeError raised by evaluating the
  expression \<open>e\<close>; \<open>NodeError c\<close> is an error raised inside Node's HTTP library.
\<close>

datatype error =
    Error string
  | ErrorWith string jsval
  | TypeError string
  | NodeError string

definition digit_char :: "nat \<Rightarrow> char" where
  "digit_char d = ''0123456789'' ! d"

fun string_of_nat :: "nat \<Rightarrow> string" where
  "string_of_nat n =
     (if n < 10 then [digit_char n] else string_of_nat (n div 10) @ [digit_char (n mod 10)])"

declare string_of_nat.simps [simp del]

fun own_properties :: "jsval \<Rightarrow> (string \<times> jsval) list" where
  "own_properties (JObj kvs) = kvs"
| "own_properties (JArr xs) = zip (map string_of_nat [0..<length xs]) xs"
| "own_properties (JStr s) = zip (map string_of_nat [0..<length s]) (map (\<lambda>c. JStr [c]) s)"
| "own_properties v = []"

definition object_keys :: "jsval \<Rightarrow> error + string list" where
  \<comment> \<open>\<open>Object.keys(v)\<close>\<close>
  "object_keys v =
     (if nullish v then Inl (TypeError ''Object.keys'') else Inr (map fst (own_properties v)))"

definition js_get :: "jsval \<Rightarrow> string \<Rightarrow> jsval" where
  \<comment> \<open>the property read \<open>v[k]\<close> (also \<open>Reflect.get(v, k)\<close>) on a value that is neither
      \<open>null\<close> nor \<open>undefined\<close>, for a name that is not an inherited one\<close>
  "js_get v k =
     (case map_of (own_properties v) k of
        Some x \<Rightarrow> x
      | None \<Rightarrow>
          (if k = ''length''
           then (case v of
                   JArr xs \<Rightarrow> JNum (int (length xs))
                 | JStr s \<Rightarrow> JNum (int (length s))
                 | _ \<Rightarrow> JUndefined)
           else JUndefined))"

section \<open>Event flattening (src/index.js)\<close>

text \<open>
  The members every plain object inherits from \<open>Object.prototype\<close>.  The operator
  \<open>in\<close> finds them on the fresh object literal \<open>out\<close>, and an assignment to
  \<open>__proto__\<close> runs the inherited setter instead of creating a property.  A new
  property is put at the end of the list; the place the engine gives a property whose
  name is an array index is not tracked, and the properties proved below are about
  lookups.
\<close>

definition object_prototype_keys :: "string list" where
  "object_prototype_keys =
     [''constructor'', ''__defineGetter__'', ''__defineSetter__'', ''hasOwnProperty'',
      ''__lookupGetter__'', ''__lookupSetter__'', ''isPrototypeOf'', ''propertyIsEnumerable'',
      ''toString'', ''valueOf'', ''__proto__'', ''toLocaleString'']"

definition has_property :: "(string \<times> 'a) list \<Rightarrow> string \<Rightarrow> bool" where
  \<comment> \<open>\<open>key in out\<close>\<close>
  "has_property out key = (key \<in> fst ` set out \<or> key \<in> set object_prototype_keys)"

definition assign :: "(string \<times> 'a) list \<Rightarrow> string \<Rightarrow> 'a \<Rightarrow> (string \<times> 'a) list" where
  \<comment> \<open>\<open>out[key] = v\<close>\<close>
  "assign out key v =
     (if key = ''__proto__'' then out
      else if key \<in> fst ` set out then map (\<lambda>(k, x). if k = key then (k, v) else (k, x)) out
      else out @ [(key, v)])"

definition push_at :: "(string \<times> 'a list) list \<Rightarrow> string \<Rightarrow> 'a \<Rightarrow> (string \<times> 'a list) list" where
  \<comment> \<open>\<open>out[key].push(v)\<close> for an own property holding an array\<close>
  "push_at out key v = map (\<lambda>(k, vs). if k = key then (k, vs @ [v]) else (k, vs)) out"

definition delete_key :: "string \<Rightarrow> (string \<times> 'a) list \<Rightarrow> (string \<times> 'a) list" where
  \<comment> \<open>\<open>delete out[key]\<close>\<close>
  "delete_key key out = filter (\<lambda>(k, x). k \<noteq> key) out"

text \<open>
  The raw header list alternates names and values.  A value is \<open>None\<close> where the
  source reads \<open>undefined\<close> (past the end of a list of odd length).
\<close>

fun flattenHeaders_loop ::
  "string list \<Rightarrow> (string \<times> string option) list \<Rightarrow> string list \<Rightarrow>
   (string \<times> string option) list \<times> string list" where
  "flattenHeaders_loop [] out deleteList = (out, deleteList)"
| "flattenHeaders_loop [headerName] out deleteList =
     (if \<not> has_property out headerName then (assign out headerName None, deleteList)
      else (out, deleteList @ [headerName]))"
| "flattenHeaders_loop (headerName # headerValue # h) out deleteList =
     (if \<not> has_property out headerName
      then flattenHeaders_loop h (assign out headerName (Some headerValue)) deleteList
      else flattenHeaders_loop h out (deleteList @ [headerName]))"

definition flattenHeaders :: "string list \<Rightarrow> (string \<times> string option) list" where
  "flattenHeaders h =
     (let (out, deleteList) = flattenHeaders_loop h [] []
      in fold delete_key deleteList out)"

fun multiValueHeaders_loop ::
  "string list \<Rightarrow> (string \<times> string option list) list \<Rightarrow>
   error + (string \<times> string option list) list" where
  "multiValueHeaders_loop [] out = Inr out"
| "multiValueHeaders_loop [headerName] out =
     (if \<not> has_property out headerName then Inr (assign out headerName [None])
      else (case map_of out headerName of
              Some vs \<Rightarrow> Inr (push_at out headerName None)
            | None \<Rightarrow> Inl (TypeError ''out[headerName].push'')))"
| "multiValueHeaders_loop (headerName # headerValue # h) out =
     (if \<not> has_property out headerName
      then multiValueHeaders_loop h (assign out headerName [Some headerValue])
      else (case map_of out headerName of
              Some vs \<Rightarrow> multiValueHeaders_loop h (push_at out headerName (Some headerValue))
            | None \<Rightarrow> Inl (TypeError ''out[headerName].push'')))"

definition multiValueHeaders :: "string list \<Rightarrow> error + (string \<times> string option list) list" where
  "multiValueHeaders h = multiValueHeaders_loop h []"

text \<open>
  The parsed query object of \<open>url.parse(reqUrl, true)\<close>: a key that occurs once has a
  string, a repeated key the array of its values in the order of the query string.
\<close>

datatype qsval = Single string | Multi "string list"

definition last_value :: "qsval \<Rightarrow> string option" where
  \<comment> \<open>\<open>typeof v === 'string' ? v : v[v.length - 1]\<close>\<close>
  "last_value v =
     (case v of
        Single s \<Rightarrow> Some s
      | Multi vs \<Rightarrow> (if vs = [] then None else Some (vs ! (length vs - 1))))"

definition singleValueQueryString :: "(string \<times> qsval) list \<Rightarrow> (string \<times> string option) list" where
  "singleValueQueryString qs = fold (\<lambda>(key, v) out. assign out key (last_value v)) qs []"

definition multiValueObject :: "(string \<times> qsval) list \<Rightarrow> (string \<times> string list) list" where
  "multiValueObject h =
     fold (\<lambda>(key, v) out. case v of Single s \<Rightarrow> assign out key [s] | Multi vs \<Rightarrow> assign out key vs)
       h []"

section \<open>Worker Supervisor (src/child-process-worker.js)\<close>

definition checkResult :: "jsval \<Rightarrow> bool" where
  "checkResult v =
     (if typeof v \<noteq> TObject \<or> \<not> truthy v then False
      else if typeof (js_get v ''isBase64Encoded'') \<noteq> TBoolean then False
      else if typeof (js_get v ''statusCode'') \<noteq> TNumber then False
      else if typeof (js_get v ''headers'') \<noteq> TObject then False
      else let mvHeaders = js_get v ''multiValueHeaders''
           in if truthy mvHeaders \<and> typeof mvHeaders \<noteq> TObject then False
              else if typeof (js_get v ''body'') \<noteq> TString then False
              else True)"

text \<open>
  The promise \<open>ready\<close> of an invocation.  A rejection carries either a thrown
  exception or the payload object the exit listener builds.
\<close>

datatype reason = Thrown error | Payload jsval

datatype promise = Pending | Resolved jsval | Rejected reason

definition settle :: "promise \<Rightarrow> promise \<Rightarrow> promise" where
  \<comment> \<open>\<open>resolve\<close> and \<open>reject\<close> act on a pending promise only\<close>
  "settle current outcome = (case current of Pending \<Rightarrow> outcome | _ \<Rightarrow> current)"

text \<open>
  One spawned process together with the variables of the \<open>request\<close> call that spawned
  it: the messages handed to \<open>proc.send\<close>, the signals handed to \<open>proc.kill\<close>, the
  variable \<open>error\<close> (the first chunk of the error stream, unset until one arrives),
  which of the once-listeners are still attached, and the promise.  The log lines the
  supervisor writes carry wall-clock times and are not modelled.
\<close>

record proc =
  request_id :: string
  argv :: "jsval list"
  sent :: "jsval list"
  kills :: "int list"
  captured :: "string option"
  stderr_once :: bool
  message_once :: bool
  exit_once :: bool
  ready :: promise

record worker_options =
  opt_env :: "(string \<times> string) list"
  opt_runtime :: string
  opt_handler :: "string option"
  opt_entry :: string

record worker =
  procs :: "nat list"
  latestId :: "string option"
  options :: worker_options

definition new_worker :: "worker_options \<Rightarrow> error + worker" where
  \<comment> \<open>the constructor of \<open>ChildProcessWorker\<close>\<close>
  "new_worker opts =
     (if \<not> startsWith (opt_runtime opts) ''nodejs:''
      then Inl (Error ''only node.js runtime supported currently'')
      else Inr \<lparr>procs = [], latestId = None, options = opts\<rparr>)"

definition event_message :: "string \<Rightarrow> jsval \<Rightarrow> jsval" where
  \<comment> \<open>the argument of \<open>proc.send\<close>\<close>
  "event_message id' eventObject =
     JObj [(''message'', JStr ''event''), (''id'', JStr id'), (''eventObject'', eventObject)]"

definition spawn :: "worker \<Rightarrow> string \<Rightarrow> proc" where
  "spawn w id' =
     \<lparr>request_id = id',
      argv = [JStr ''/tmp/worker.js'', JStr (opt_entry (options w)),
              (case opt_handler (options w) of None \<Rightarrow> JUndefined | Some h \<Rightarrow> JStr h)],
      sent = [], kills = [], captured = None,
      stderr_once = True, message_once = True, exit_once = True,
      ready = Pending\<rparr>"

definition message_listener :: "jsval \<Rightarrow> proc \<Rightarrow> error + proc" where
  \<comment> \<open>the listener of \<open>proc.once('message', ...)\<close>; the variable \<open>response\<close> is set
      before the listener can run, so the branch for an unset \<open>response\<close> is left out\<close>
  "message_listener msg p =
     (if typeof msg \<noteq> TObject \<or> msg = JNull
      then Inl (Error ''bad data type from child process'')
      else let messageType = js_get msg ''message''
      in if messageType \<noteq> JStr ''result''
         then Inl (ErrorWith ''incorrect type field from child process:'' (js_get msg ''type''))
         else let id' = js_get msg ''id''
         in if typeof id' \<noteq> TString
            then Inl (ErrorWith ''missing id from child process:'' id')
            else let resultObj = js_get msg ''result''
            in if \<not> checkResult resultObj
               then Inl (ErrorWith ''missing result from child process:'' resultObj)
               else Inr (p\<lparr>ready := settle (ready p) (Resolved resultObj),
                           kills := kills p @ [0]\<rparr>))"

definition exit_listener :: "int option \<Rightarrow> proc \<Rightarrow> error + proc" where
  \<comment> \<open>the listener of \<open>proc.once('exit', ...)\<close>; the code is \<open>None\<close> for \<open>null\<close>\<close>
  "exit_listener code p =
     (if code \<noteq> Some 0
      then (case captured p of
              None \<Rightarrow> Inl (TypeError ''error.split'')
            | Some error \<Rightarrow>
                Inr (p\<lparr>ready := settle (ready p)
                       (Rejected (Payload (JObj [(''message'', JStr ''Internal Server Error''),
                                                 (''error'', JStr error)])))\<rparr>))
      else Inr p)"

definition error_listener :: "error \<Rightarrow> proc \<Rightarrow> proc" where
  \<comment> \<open>the listener of \<open>proc.on('error', ...)\<close>\<close>
  "error_listener err p = p\<lparr>ready := settle (ready p) (Rejected (Thrown err))\<rparr>"

definition stderr_listener :: "string \<Rightarrow> proc \<Rightarrow> proc" where
  \<comment> \<open>the listener of \<open>proc.stderr.once('data', ...)\<close>\<close>
  "stderr_listener d p = p\<lparr>captured := Some d\<rparr>"

section \<open>Gateway (src/index.js)\<close>

text \<open>
  What the gateway calls in the Node platform and the repository does not define:
  \<open>url_pathname v\<close> is the \<open>pathname\<close> of \<open>new URL(v, 'http://localhost:80')\<close>, or
  \<open>None\<close> when the constructor throws; \<open>json2 v\<close> is \<open>JSON.stringify(v, null, 2)\<close>;
  \<open>header_ok\<close> tells whether \<open>res.setHeader\<close> accepts a name and a value, and
  \<open>end_ok\<close> whether \<open>res.end\<close> accepts to send a chunk under a status code.
\<close>

record platform =
  url_pathname :: "jsval \<Rightarrow> string option"
  json2 :: "jsval \<Rightarrow> string"
  header_ok :: "string \<Rightarrow> jsval \<Rightarrow> bool"
  end_ok :: "jsval \<Rightarrow> jsval \<Rightarrow> bool"

record server =
  listening :: bool

text \<open>
  A response object of Node's HTTP server: the status code assigned to it, the calls of
  \<open>setHeader\<close> in order, and the argument of \<open>end\<close> once the response has ended.
\<close>

record response =
  statusCode :: jsval
  headers :: "(string \<times> jsval) list"
  ended :: "jsval option"

record pending_request =
  req :: nat
  res :: nat
  pending_id :: string

text \<open>
  The gateway object.  Its servers, function objects, worker supervisors, processes and
  response objects live in stores; a reference is an index into a store, so that two
  entries of \<open>functions\<close> can refer to one function object.  Options that only
  concern CORS, logging and the request context hook are not modelled.  A server is
  taken to start listening when \<open>listen\<close> is called and to stop when \<open>close\<close> is
  called, and the callbacks of both to arrive.
\<close>

record gateway =
  httpServer :: "nat option"
  httpsServer :: "nat option"
  env :: "(string \<times> string) list"
  "functions" :: "nat list"
  pendingRequests :: "string \<rightharpoonup> pending_request"
  server_objs :: "server list"
  function_objs :: "function_info list"
  worker_objs :: "worker list"
  proc_objs :: "proc list"
  response_objs :: "response list"

text \<open>
  The options of the constructor: the \<open>routes\<close> object as the list of its entries, or
  the \<open>functions\<close> array; \<open>o_https\<close> tells whether \<open>httpsKey\<close>, \<open>httpsCert\<close> and
  \<open>httpsPort\<close> are all given.
\<close>

record gateway_options =
  o_routes :: "(string \<times> string) list option"
  o_functions :: "function_info list option"
  o_env :: "(string \<times> string) list"
  o_https :: bool

fun forEach :: "('a \<Rightarrow> 's \<Rightarrow> error + 's) \<Rightarrow> 'a list \<Rightarrow> 's \<Rightarrow> error + 's" where
  "forEach f [] s = Inr s"
| "forEach f (x # xs) s = (case f x s of Inl e \<Rightarrow> Inl e | Inr s' \<Rightarrow> forEach f xs s')"

definition addWorker :: "nat \<Rightarrow> gateway \<Rightarrow> error + gateway" where
  "addWorker fun g =
     (let f = function_objs g ! fun;
          opts = \<lparr>opt_env = env g, opt_runtime = ''nodejs:12.x'',
                  opt_handler = handler f, opt_entry = entry f\<rparr>
      in case new_worker opts of
           Inl e \<Rightarrow> Inl e
         | Inr w \<Rightarrow>
             Inr (g\<lparr>worker_objs := worker_objs g @ [w],
                    function_objs := (function_objs g)[fun := f\<lparr>worker := Some (length (worker_objs g))\<rparr>],
                    functions := functions g @ [fun]\<rparr>))"

definition new_gateway :: "gateway_options \<Rightarrow> error + gateway" where
  \<comment> \<open>the constructor of \<open>FakeApiGatewayLambda\<close>\<close>
  "new_gateway opts =
     (let g0 = \<lparr>httpServer = Some 0,
                httpsServer = (if o_https opts then Some 1 else None),
                env = o_env opts,
                functions = [],
                pendingRequests = Map.empty,
                server_objs = (if o_https opts
                               then [\<lparr>listening = False\<rparr>, \<lparr>listening = False\<rparr>]
                               else [\<lparr>listening = False\<rparr>]),
                function_objs = [], worker_objs = [], proc_objs = [], response_objs = []\<rparr>
      in case (case o_routes opts of
                 Some routes \<Rightarrow>
                   Inr (map (\<lambda>(key, value).
                          \<lparr>path = key, entry = value, handler = None, worker = None\<rparr>) routes)
               | None \<Rightarrow>
                   (case o_functions opts of
                      None \<Rightarrow> Inl (TypeError ''[...options.functions]'')
                    | Some fs \<Rightarrow> Inr fs)) of
           Inl e \<Rightarrow> Inl e
         | Inr funs \<Rightarrow>
             forEach addWorker [0..<length funs] (g0\<lparr>function_objs := funs\<rparr>))"

definition listen :: "nat \<Rightarrow> gateway \<Rightarrow> gateway" where
  "listen s g = g\<lparr>server_objs := (server_objs g)[s := \<lparr>listening = True\<rparr>]\<rparr>"

definition server_close :: "nat \<Rightarrow> gateway \<Rightarrow> gateway" where
  "server_close s g = g\<lparr>server_objs := (server_objs g)[s := \<lparr>listening = False\<rparr>]\<rparr>"

definition bootstrap :: "gateway \<Rightarrow> error + gateway" where
  "bootstrap g =
     (case httpServer g of
        None \<Rightarrow> Inl (Error ''cannot bootstrap closed server'')
      | Some hs \<Rightarrow>
          let g1 = (case httpsServer g of None \<Rightarrow> g | Some ss \<Rightarrow> listen ss g);
              g2 = listen hs g1
          in forEach addWorker (functions g2) g2)"

definition changePort :: "gateway \<Rightarrow> error + gateway" where
  "changePort g =
     (let g1 = (case httpServer g of
                  None \<Rightarrow> g
                | Some hs \<Rightarrow>
                    (let g' = server_close hs g
                     in g'\<lparr>httpServer := Some (length (server_objs g')),
                           server_objs := server_objs g' @ [\<lparr>listening = False\<rparr>]\<rparr>));
          g2 = (case httpsServer g1 of
                  None \<Rightarrow> g1
                | Some ss \<Rightarrow> (server_close ss g1)\<lparr>httpsServer := None\<rparr>)
      in bootstrap g2)"

definition kill :: "int \<Rightarrow> nat \<Rightarrow> gateway \<Rightarrow> gateway" where
  \<comment> \<open>\<open>v.kill(signal)\<close> on the process object \<open>v\<close>\<close>
  "kill signal v g =
     g\<lparr>proc_objs := (proc_objs g)[v := (proc_objs g ! v)\<lparr>kills := kills (proc_objs g ! v) @ [signal]\<rparr>]\<rparr>"

definition worker_close :: "nat \<Rightarrow> gateway \<Rightarrow> gateway" where
  \<comment> \<open>\<open>ChildProcessWorker.close\<close>, on the supervisor \<open>w\<close>\<close>
  "worker_close w g =
     (let g1 = fold (kill 0) (procs (worker_objs g ! w)) g
      in g1\<lparr>worker_objs := (worker_objs g1)[w := (worker_objs g1 ! w)\<lparr>procs := []\<rparr>]\<rparr>)"

definition close :: "gateway \<Rightarrow> error + gateway" where
  "close g =
     (let g1 = (case httpServer g of None \<Rightarrow> g | Some hs \<Rightarrow> server_close hs g);
          g2 = (case httpsServer g1 of None \<Rightarrow> g1 | Some ss \<Rightarrow> server_close ss g1)
      in case forEach (\<lambda>f g'. case worker (function_objs g' ! f) of
                                None \<Rightarrow> Inl (TypeError ''f.worker.close'')
                              | Some w \<Rightarrow> Inr (worker_close w g'))
                (functions g2) g2 of
           Inl e \<Rightarrow> Inl e
         | Inr g3 \<Rightarrow> Inr (g3\<lparr>httpServer := None, httpsServer := None\<rparr>))"

definition request :: "nat \<Rightarrow> string \<Rightarrow> jsval \<Rightarrow> gateway \<Rightarrow> nat \<times> gateway" where
  \<comment> \<open>\<open>ChildProcessWorker.request\<close> on the supervisor \<open>w\<close>; returns the process whose
      promise \<open>ready\<close> is the result\<close>
  "request w id' eventObject g =
     (let wk = worker_objs g ! w;
          p = length (proc_objs g);
          pr = (spawn wk id')\<lparr>sent := [event_message id' eventObject]\<rparr>
      in (p, g\<lparr>proc_objs := proc_objs g @ [pr],
                worker_objs := (worker_objs g)[w := wk\<lparr>latestId := Some id', procs := procs wk @ [p]\<rparr>]\<rparr>))"

definition forbidden_body :: string where
  \<comment> \<open>the value of \<open>JSON.stringify({ message: 'Forbidden' })\<close>\<close>
  \<open>forbidden_body = ''{"message":"Forbidden"}''\<close>

definition forbidden_result :: jsval where
  "forbidden_result =
     JObj [(''isBase64Encoded'', JBool False), (''statusCode'', JNum 403),
           (''headers'', JObj []), (''body'', JStr forbidden_body),
           (''multiValueHeaders'', JObj [])]"

datatype dispatched = Settled promise | Awaiting nat

definition dispatch :: "platform \<Rightarrow> string \<Rightarrow> jsval \<Rightarrow> gateway \<Rightarrow> dispatched \<times> gateway" where
  "dispatch P id' eventObject g =
     (if nullish eventObject then (Settled (Rejected (Thrown (TypeError ''eventObject.path''))), g)
      else case url_pathname P (js_get eventObject ''path'') of
             None \<Rightarrow> (Settled (Rejected (Thrown (TypeError ''new URL''))), g)
           | Some pathname \<Rightarrow>
               (case matchRoute (map (\<lambda>f. function_objs g ! f) (functions g)) pathname of
                  Some matched \<Rightarrow>
                    (case worker matched of
                       None \<Rightarrow> (Settled (Rejected (Thrown (TypeError ''matched.worker.request''))), g)
                     | Some w \<Rightarrow> (let (p, g') = request w id' eventObject g in (Awaiting p, g')))
                | None \<Rightarrow> (Settled (Resolved forbidden_result), g)))"

definition setHeader :: "platform \<Rightarrow> string \<Rightarrow> jsval \<Rightarrow> response \<Rightarrow> (error + unit) \<times> response" where
  "setHeader P name v r =
     (if header_ok P name v then (Inr (), r\<lparr>headers := headers r @ [(name, v)]\<rparr>)
      else (Inl (NodeError ''setHeader''), r))"

fun setHeaders :: "platform \<Rightarrow> jsval \<Rightarrow> string list \<Rightarrow> response \<Rightarrow> (error + unit) \<times> response" where
  \<comment> \<open>\<open>for (const key of keys) res.setHeader(key, obj[key])\<close>\<close>
  "setHeaders P obj [] r = (Inr (), r)"
| "setHeaders P obj (key # keys) r =
     (case setHeader P key (js_get obj key) r of
        (Inl e, r') \<Rightarrow> (Inl e, r')
      | (Inr u, r') \<Rightarrow> setHeaders P obj keys r')"

definition end_response :: "platform \<Rightarrow> jsval \<Rightarrow> response \<Rightarrow> (error + unit) \<times> response" where
  \<comment> \<open>\<open>res.end(chunk)\<close>\<close>
  "end_response P chunk r =
     (if end_ok P (statusCode r) chunk then (Inr (), r\<lparr>ended := Some chunk\<rparr>)
      else (Inl (NodeError ''end''), r))"

definition write_result :: "platform \<Rightarrow> jsval \<Rightarrow> response \<Rightarrow> (error + unit) \<times> response" where
  \<comment> \<open>\<open>handleLambdaResult\<close> from \<open>const res = pending.res\<close> on\<close>
  "write_result P result r0 =
     (if nullish result then (Inl (TypeError ''result.statusCode''), r0)
      else let r1 = r0\<lparr>statusCode := js_get result ''statusCode''\<rparr>
      in case object_keys (js_get result ''headers'') of
           Inl e \<Rightarrow> (Inl e, r1)
         | Inr ks \<Rightarrow>
             (case setHeaders P (js_get result ''headers'') ks r1 of
                (Inl e, r2) \<Rightarrow> (Inl e, r2)
              | (Inr u, r2) \<Rightarrow>
                  (case (if truthy (js_get result ''multiValueHeaders'')
                         then (case object_keys (js_get result ''multiValueHeaders'') of
                                 Inl e \<Rightarrow> (Inl e, r2)
                               | Inr mks \<Rightarrow> setHeaders P (js_get result ''multiValueHeaders'') mks r2)
                         else (Inr (), r2)) of
                     (Inl e, r3) \<Rightarrow> (Inl e, r3)
                   | (Inr u', r3) \<Rightarrow>
                       (if truthy (js_get result ''isBase64Encoded'')
                        then end_response P (JStr forbidden_body) (r3\<lparr>statusCode := JNum 400\<rparr>)
                        else end_response P (js_get result ''body'') r3))))"

definition handleLambdaResult :: "platform \<Rightarrow> string \<Rightarrow> jsval \<Rightarrow> gateway \<Rightarrow> (error + unit) \<times> gateway" where
  "handleLambdaResult P id' result g =
     (case pendingRequests g id' of
        None \<Rightarrow> (Inl (Error ''response without request: should never happen''), g)
      | Some pending \<Rightarrow>
          (let g1 = g\<lparr>pendingRequests := (pendingRequests g)(id' := None)\<rparr>;
               (outcome, r) = write_result P result (response_objs g1 ! res pending)
           in (outcome, g1\<lparr>response_objs := (response_objs g1)[res pending := r]\<rparr>)))"

definition newline :: char where
  "newline = CHR 0x0A"

definition crash_result :: "platform \<Rightarrow> jsval \<Rightarrow> string \<Rightarrow> jsval" where
  \<comment> \<open>the object literal handed to \<open>handleLambdaResult\<close> by the \<open>catch\<close> callback\<close>
  "crash_result P message stack =
     JObj [(''statusCode'', JNum 500), (''headers'', JObj []),
           (''body'', JStr (json2 P (JObj [(''message'', message),
                                           (''stack'', JArr (map JStr (split_on newline stack)))])))]"

definition catch_callback :: "platform \<Rightarrow> string \<Rightarrow> reason \<Rightarrow> gateway \<Rightarrow> (error + unit) \<times> gateway" where
  \<comment> \<open>\<open>.catch(err => ...)\<close> of \<open>doDispatch\<close>.  A thrown exception object has no property
      \<open>error\<close>, so that \<open>err.error.split\<close> raises.\<close>
  "catch_callback P id' err g =
     (case err of
        Thrown e \<Rightarrow> (Inl (TypeError ''err.error.split''), g)
      | Payload v \<Rightarrow>
          (if nullish v then (Inl (TypeError ''err.message''), g)
           else case js_get v ''error'' of
                  JStr stack \<Rightarrow> handleLambdaResult P id' (crash_result P (js_get v ''message'') stack) g
                | _ \<Rightarrow> (Inl (TypeError ''err.error.split''), g)))"

definition settled :: "platform \<Rightarrow> string \<Rightarrow> promise \<Rightarrow> gateway \<Rightarrow> (error + unit) \<times> gateway" where
  \<comment> \<open>the callbacks \<open>doDispatch\<close> chains on the promise of \<open>dispatch\<close>, run once it has
      the given state\<close>
  "settled P id' pr g =
     (case pr of
        Pending \<Rightarrow> (Inr (), g)
      | Resolved result \<Rightarrow>
          (case handleLambdaResult P id' result g of
             (Inl e, g') \<Rightarrow> catch_callback P id' (Thrown e) g'
           | (Inr u, g') \<Rightarrow> (Inr (), g'))
      | Rejected err \<Rightarrow> catch_callback P id' err g)"

definition doDispatch ::
  "platform \<Rightarrow> nat \<Rightarrow> nat \<Rightarrow> string \<Rightarrow> jsval \<Rightarrow> gateway \<Rightarrow> (error + unit) \<times> gateway" where
  \<comment> \<open>\<open>doDispatch\<close> for the request \<open>rq\<close>, the response \<open>rs\<close> and the fresh identifier
      \<open>id'\<close> that \<open>cuuid()\<close> returned\<close>
  "doDispatch P rq rs id' eventObject g =
     (let g1 = g\<lparr>pendingRequests := (pendingRequests g)(id' \<mapsto> \<lparr>req = rq, res = rs, pending_id = id'\<rparr>)\<rparr>
      in case dispatch P id' eventObject g1 of
           (Settled pr, g2) \<Rightarrow> settled P id' pr g2
         | (Awaiting p, g2) \<Rightarrow> (Inr (), g2))"

text \<open>
  What a spawned process can do to the gateway: emit a chunk on its error stream, send
  an IPC message, exit with a code (\<open>None\<close> when a signal ended it), or fail with an
  error.  A once-listener is detached before it runs.  When the event settles the
  promise of the invocation, the callbacks of \<open>doDispatch\<close> run.
\<close>

datatype proc_event = StderrData string | Message jsval | Exit "int option" | ProcError error

definition listeners :: "proc_event \<Rightarrow> proc \<Rightarrow> (error + unit) \<times> proc" where
  "listeners ev p =
     (case ev of
        StderrData d \<Rightarrow>
          (if stderr_once p then (Inr (), stderr_listener d (p\<lparr>stderr_once := False\<rparr>))
           else (Inr (), p))
      | Message msg \<Rightarrow>
          (if message_once p
           then (case message_listener msg (p\<lparr>message_once := False\<rparr>) of
                   Inl e \<Rightarrow> (Inl e, p\<lparr>message_once := False\<rparr>)
                 | Inr p' \<Rightarrow> (Inr (), p'))
           else (Inr (), p))
      | Exit code \<Rightarrow>
          (if exit_once p
           then (case exit_listener code (p\<lparr>exit_once := False\<rparr>) of
                   Inl e \<Rightarrow> (Inl e, p\<lparr>exit_once := False\<rparr>)
                 | Inr p' \<Rightarrow> (Inr (), p'))
           else (Inr (), p))
      | ProcError err \<Rightarrow> (Inr (), error_listener err p))"

definition proc_emits :: "platform \<Rightarrow> nat \<Rightarrow> proc_event \<Rightarrow> gateway \<Rightarrow> (error + unit) \<times> gateway" where
  "proc_emits P v ev g =
     (let p = proc_objs g ! v;
          (outcome, p') = listeners ev p;
          g2 = g\<lparr>proc_objs := (proc_objs g)[v := p']\<rparr>
      in case outcome of
           Inl e \<Rightarrow> (Inl e, g2)
         | Inr u \<Rightarrow>
             (if ready p = Pending \<and> ready p' \<noteq> Pending
              then settled P (request_id p) (ready p') g2
              else (Inr (), g2)))"

section \<open>Auxiliary definitions for the properties\<close>

definition headers_accepted :: "platform \<Rightarrow> jsval \<Rightarrow> bool" where
  "headers_accepted P obj =
     (case object_keys obj of
        Inl e \<Rightarrow> False
      | Inr ks \<Rightarrow> list_all (\<lambda>k. header_ok P k (js_get obj k)) ks)"

definition demo_platform :: platform where
  "demo_platform =
     \<lparr>url_pathname = (\<lambda>v. if v = JStr ''/hello'' then Some ''/hello''
                           else if v = JStr ''/nope'' then Some ''/nope'' else None),
      json2 = (\<lambda>v. ''{}''),
      header_ok = (\<lambda>name v. True),
      end_ok = (\<lambda>status chunk. True)\<rparr>"

definition demo_gateway :: gateway where
  "demo_gateway =
     \<lparr>httpServer = Some 0, httpsServer = None, env = [], functions = [0],
      pendingRequests = [''id1'' \<mapsto> \<lparr>req = 0, res = 0, pending_id = ''id1''\<rparr>],
      server_objs = [\<lparr>listening = True\<rparr>],
      function_objs = [\<lparr>path = ''/hello'', entry = ''hello.js'', handler = None, worker = Some 0\<rparr>],
      worker_objs = [\<lparr>procs = [], latestId = None,
                      options = \<lparr>opt_env = [], opt_runtime = ''nodejs:12.x'',
                                  opt_handler = None, opt_entry = ''hello.js''\<rparr>\<rparr>],
      proc_objs = [],
      response_objs = [\<lparr>statusCode = JNum 200, headers = [], ended = None\<rparr>]\<rparr>"

definition ok_result :: jsval where
  \<comment> \<open>a result that satisfies the shape check\<close>
  "ok_result =
     JObj [(''isBase64Encoded'', JBool False), (''statusCode'', JNum 200),
           (''headers'', JObj [(''Content-Type'', JStr ''text/plain'')]), (''body'', JStr ''hi'')]"

definition null_headers_result :: jsval where
  \<comment> \<open>the result object \<open>{isBase64Encoded: false, statusCode: 200, headers: null, body: "hi"}\<close>\<close>
  "null_headers_result =
     JObj [(''isBase64Encoded'', JBool False), (''statusCode'', JNum 200),
           (''headers'', JNull), (''body'', JStr ''hi'')]"

definition flagged_null_headers_result :: jsval where
  \<comment> \<open>the result object \<open>{isBase64Encoded: true, statusCode: 200, headers: null, body: "hi"}\<close>\<close>
  "flagged_null_headers_result =
     JObj [(''isBase64Encoded'', JBool True), (''statusCode'', JNum 200),
           (''headers'', JNull), (''body'', JStr ''hi'')]"

definition demo_proc :: proc where
  \<comment> \<open>a process as \<open>request\<close> leaves it\<close>
  "demo_proc =
     \<lparr>request_id = ''id1'', argv = [JStr ''/tmp/worker.js'', JStr ''hello.js'', JUndefined],
      sent = [event_message ''id1'' (JObj [(''path'', JStr ''/hello'')])], kills = [],
      captured = None, stderr_once = True, message_once = True, exit_once = True,
      ready = Pending\<rparr>"

text \<open>
  The raw header list read as pairs of a name and its value, and the values a list of
  pairs holds for one name, in order.
\<close>

fun header_pairs :: "string list \<Rightarrow> (string \<times> string option) list" where
  "header_pairs [] = []"
| "header_pairs [n] = [(n, None)]"
| "header_pairs (n # v # h) = (n, Some v) # header_pairs h"

definition values_of :: "(string \<times> 'a) list \<Rightarrow> string \<Rightarrow> 'a list" where
  "values_of ps n = map snd (filter (\<lambda>(k, v). k = n) ps)"

definition all_values :: "qsval \<Rightarrow> string list" where
  "all_values v = (case v of Single s \<Rightarrow> [s] | Multi vs \<Rightarrow> vs)"

definition no_inherited_names :: "string list \<Rightarrow> bool" where
  \<comment> \<open>no header name is the name of a member of \<open>Object.prototype\<close>\<close>
  "no_inherited_names h = list_all (\<lambda>n. n \<notin> set object_prototype_keys) (map fst (header_pairs h))"

definition demo_options :: gateway_options where
  \<comment> \<open>the options \<open>{ routes: { '/hello': 'hello.js' } }\<close>\<close>
  "demo_options =
     \<lparr>o_routes = Some [(''/hello'', ''hello.js'')], o_functions = None, o_env = [], o_https = False\<rparr>"

definition hello_event :: jsval where
  "hello_event = JObj [(''path'', JStr ''/hello'')]"

text \<open>
  The gateway of \<open>demo_options\<close> after the constructor and \<open>bootstrap\<close>, and the same
  gateway once a request for \<open>/hello\<close> has been dispatched with the identifier
  \<open>id1\<close> (the lemmas \<open>demo_started\<close> and \<open>demo_serving\<close> below).
\<close>

definition started_gateway :: gateway where
  "started_gateway =
     \<lparr>httpServer = Some 0, httpsServer = None, env = [], functions = [0, 0],
      pendingRequests = Map.empty, server_objs = [\<lparr>listening = True\<rparr>],
      function_objs = [\<lparr>path = ''/hello'', entry = ''hello.js'', handler = None, worker = Some 1\<rparr>],
      worker_objs =
        [\<lparr>procs = [], latestId = None,
           options = \<lparr>opt_env = [], opt_runtime = ''nodejs:12.x'', opt_handler = None,
                       opt_entry = ''hello.js''\<rparr>\<rparr>,
         \<lparr>procs = [], latestId = None,
           options = \<lparr>opt_env = [], opt_runtime = ''nodejs:12.x'', opt_handler = None,
                       opt_entry = ''hello.js''\<rparr>\<rparr>],
      proc_objs = [], response_objs = []\<rparr>"

definition serving_gateway :: gateway where
  "serving_gateway =
     started_gateway
       \<lparr>worker_objs :=
          [\<lparr>procs = [], latestId = None,
             options = \<lparr>opt_env = [], opt_runtime = ''nodejs:12.x'', opt_handler = None,
                         opt_entry = ''hello.js''\<rparr>\<rparr>,
           \<lparr>procs = [0], latestId = Some ''id1'',
             options = \<lparr>opt_env = [], opt_runtime = ''nodejs:12.x'', opt_handler = None,
                         opt_entry = ''hello.js''\<rparr>\<rparr>],
        proc_objs :=
          [\<lparr>request_id = ''id1'', argv = [JStr ''/tmp/worker.js'', JStr ''hello.js'', JUndefined],
             sent = [event_message ''id1'' hello_event], kills = [],
             captured = None, stderr_once = True, message_once = True, exit_once = True,
             ready = Pending\<rparr>]\<rparr>"

section \<open>Properties of the router\<close>

lemma endsWith_suffix: "endsWith s t = suffix t s"
proof
  assume "endsWith s t"
  then have "s = take (length s - length t) s @ t"
    by (metis append_take_drop_id endsWith_def)
  then show "suffix t s"
    by (metis suffixI)
next
  assume "suffix t s"
  then obtain zs where "s = zs @ t"
    by (auto simp: suffix_def)
  then show "endsWith s t"
    by (simp add: endsWith_def)
qed

lemma startsWith_prefix: "startsWith s t = prefix t s"
proof
  assume "startsWith s t"
  then have "s = t @ drop (length t) s"
    by (metis append_take_drop_id startsWith_def)
  then show "prefix t s"
    by (metis prefixI)
next
  assume "prefix t s"
  then obtain zs where "s = t @ zs"
    by (auto simp: prefix_def)
  then show "startsWith s t"
    by (simp add: startsWith_def)
qed

lemma lastIndexOf_absent: "c \<notin> set s \<Longrightarrow> lastIndexOf s c = - 1"
  by (induction s) (auto simp: Let_def)

lemma lastIndexOf_last: "c \<notin> set zs \<Longrightarrow> lastIndexOf (ys @ c # zs) c = int (length ys)"
  by (induction ys) (auto simp: Let_def lastIndexOf_absent)

lemma split_last_occurrence:
  assumes "c \<in> set s"
  shows "\<exists>ys zs. s = ys @ c # zs \<and> c \<notin> set zs"
  using assms by (metis split_list_last)

lemma literal_prefix_last:
  assumes "c \<notin> set zs"
  shows "rev (tl (dropWhile (\<lambda>x. x \<noteq> c) (rev (ys @ c # zs)))) = ys"
proof -
  have "dropWhile (\<lambda>x. x \<noteq> c) (rev zs @ c # rev ys) = dropWhile (\<lambda>x. x \<noteq> c) (c # rev ys)"
  proof (rule dropWhile_append2)
    fix x
    assume "x \<in> set (rev zs)"
    with assms show "x \<noteq> c" by auto
  qed
  then show ?thesis by simp
qed

lemma slice0_minus_one: "slice0 s (- 1) = butlast s"
proof -
  have "nat (max 0 (int (length s) + - 1)) = length s - 1"
    by (simp add: max_def nat_diff_distrib') 
  then show ?thesis
    unfolding slice0_def butlast_conv_take by simp
qed
lemma slice0_length_prefix: "slice0 (ys @ zs) (int (length ys)) = ys"
  by (simp add: slice0_def)

lemma exactPrefix_last:
  assumes "CHR ''{'' \<notin> set zs"
  shows "exactPrefix (ys @ CHR ''{'' # zs) = ys"
  unfolding exactPrefix_def Let_def lastIndexOf_last [OF assms] by (rule slice0_length_prefix)

lemma literal_prefix_split:
  assumes "CHR ''{'' \<notin> set zs"
  shows "literal_prefix (ys @ CHR ''{'' # zs) = ys"
proof -
  have "CHR ''{'' \<in> set (ys @ CHR ''{'' # zs)" by simp
  then show ?thesis
    unfolding literal_prefix_def using literal_prefix_last [OF assms, of ys] by (simp only: if_True)
qed

lemma exactPrefix_literal_prefix: "exactPrefix route = literal_prefix route"
proof (cases "CHR ''{'' \<in> set route")
  case True
  from split_last_occurrence [OF True]
  obtain ys zs where s: "route = ys @ CHR ''{'' # zs" and z: "CHR ''{'' \<notin> set zs"
    by blast
  show ?thesis
    unfolding s exactPrefix_last [OF z] literal_prefix_split [OF z] ..
next
  case False
  then have "exactPrefix route = slice0 route (- 1)"
    by (simp add: exactPrefix_def lastIndexOf_absent)
  with False show ?thesis
    by (simp add: slice0_minus_one literal_prefix_def)
qed

lemma matchRoute_test_spec: "matchRoute_test route pathname = pattern_matches route pathname"
  by (auto simp: matchRoute_test_def pattern_matches_def is_proxy_pattern_def Let_def
      endsWith_suffix startsWith_prefix exactPrefix_literal_prefix)

text \<open>
  C1. Route matching: the router returns the first registered function, in registration
  order, whose pattern matches the pathname, and no function when no pattern matches.
  A pattern that does not end in the proxy marker matches exactly the pathname equal to
  it; a pattern ending in the proxy marker matches exactly the pathnames that start with
  its literal prefix and differ from that prefix.
\<close>

theorem matchRoute_first_match:
  "(matchRoute fs pathname = None \<longleftrightarrow>
      (\<forall>f \<in> set fs. \<not> pattern_matches (path f) pathname)) \<and>
   (matchRoute fs pathname = Some f \<longleftrightarrow>
      (\<exists>i < length fs. fs ! i = f \<and> pattern_matches (path f) pathname \<and>
         (\<forall>j < i. \<not> pattern_matches (path (fs ! j)) pathname))) \<and>
   (\<forall>pattern. \<not> is_proxy_pattern pattern \<longrightarrow>
      (pattern_matches pattern pathname \<longleftrightarrow> pathname = pattern)) \<and>
   (\<forall>pattern. is_proxy_pattern pattern \<longrightarrow>
      (pattern_matches pattern pathname \<longleftrightarrow>
         prefix (literal_prefix pattern) pathname \<and> pathname \<noteq> literal_prefix pattern))"
proof -
  have none: "matchRoute fs pathname = None \<longleftrightarrow>
      (\<forall>f \<in> set fs. \<not> pattern_matches (path f) pathname)"
    unfolding matchRoute_def find_None_iff matchRoute_test_spec by blast
  have some: "matchRoute fs pathname = Some f \<longleftrightarrow>
      (\<exists>i < length fs. fs ! i = f \<and> pattern_matches (path f) pathname \<and>
         (\<forall>j < i. \<not> pattern_matches (path (fs ! j)) pathname))"
    unfolding matchRoute_def find_Some_iff matchRoute_test_spec by auto
  show ?thesis
    using none some by (simp add: pattern_matches_def)
qed

theorem matchRoute_first_match_witness:
  "matchRoute
     [\<lparr>path = ''/hello'', entry = ''hello.js'', handler = None, worker = Some 0\<rparr>,
      \<lparr>path = ''/api/{proxy+}'', entry = ''api.js'', handler = None, worker = Some 1\<rparr>,
      \<lparr>path = ''/api/x'', entry = ''x.js'', handler = None, worker = Some 2\<rparr>]
     ''/api/x''
   = Some \<lparr>path = ''/api/{proxy+}'', entry = ''api.js'', handler = None, worker = Some 1\<rparr> \<and>
   matchRoute
     [\<lparr>path = ''/api/{proxy+}'', entry = ''api.js'', handler = None, worker = Some 1\<rparr>]
     ''/api/''
   = None"
proof -
  let ?h = "\<lparr>path = ''/hello'', entry = ''hello.js'', handler = None, worker = Some 0\<rparr>"
  let ?a = "\<lparr>path = ''/api/{proxy+}'', entry = ''api.js'', handler = None, worker = Some 1\<rparr>"
  let ?x = "\<lparr>path = ''/api/x'', entry = ''x.js'', handler = None, worker = Some 2\<rparr>"
  have proxy: "is_proxy_pattern ''/api/{proxy+}''"
    by (simp add: is_proxy_pattern_def suffix_to_prefix)
  have lit: "literal_prefix ''/api/{proxy+}'' = ''/api/''"
    by (simp add: literal_prefix_def)
  have hit: "pattern_matches ''/api/{proxy+}'' ''/api/x''"
    by (simp add: pattern_matches_def proxy lit)
  have miss: "\<not> pattern_matches ''/hello'' ''/api/x''"
    by (simp add: pattern_matches_def is_proxy_pattern_def suffix_to_prefix)
  have bare: "\<not> pattern_matches ''/api/{proxy+}'' ''/api/''"
    by (simp add: pattern_matches_def proxy lit)
  have "\<exists>i < length [?h, ?a, ?x]. [?h, ?a, ?x] ! i = ?a \<and> pattern_matches (path ?a) ''/api/x'' \<and>
          (\<forall>j < i. \<not> pattern_matches (path ([?h, ?a, ?x] ! j)) ''/api/x'')"
    by (rule exI [of _ 1]) (simp add: hit miss)
  then have first: "matchRoute [?h, ?a, ?x] ''/api/x'' = Some ?a"
    using matchRoute_first_match [of "[?h, ?a, ?x]" "''/api/x''" ?a] by blast
  have "\<forall>f \<in> set [?a]. \<not> pattern_matches (path f) ''/api/''"
    by (simp add: bare)
  then have "matchRoute [?a] ''/api/'' = None"
    using matchRoute_first_match [of "[?a]" "''/api/''" ?a] by blast
  with first show ?thesis by simp
qed

section \<open>Properties of the dispatcher\<close>

lemma handleLambdaResult_unknown:
  "pendingRequests g id' = None \<Longrightarrow>
   handleLambdaResult P id' result g =
     (Inl (Error ''response without request: should never happen''), g)"
  by (simp add: handleLambdaResult_def)

lemma handleLambdaResult_removes:
  "pendingRequests g id' = Some pending \<Longrightarrow>
   pendingRequests (snd (handleLambdaResult P id' result g)) = (pendingRequests g)(id' := None)"
  by (simp add: handleLambdaResult_def Let_def split: prod.splits)

lemma handleLambdaResult_known_outcome:
  "pendingRequests g id' = Some pending \<Longrightarrow>
   handleLambdaResult P id' result g =
     (fst (write_result P result (response_objs g ! res pending)),
      g\<lparr>pendingRequests := (pendingRequests g)(id' := None),
        response_objs := (response_objs g)
          [res pending := snd (write_result P result (response_objs g ! res pending))]\<rparr>)"
  by (simp add: handleLambdaResult_def Let_def split: prod.splits)

lemma settled_unknown:
  assumes "pendingRequests g id' = None \<and> pr \<noteq> Pending"
  shows "\<exists>e. fst (settled P id' pr g) = Inl e"
proof (cases pr)
  case Pending
  with assms show ?thesis by simp
next
  case (Resolved result)
  with assms show ?thesis
    by (simp add: settled_def handleLambdaResult_unknown catch_callback_def)
next
  case (Rejected err)
  with assms show ?thesis
    by (auto simp: settled_def handleLambdaResult_unknown catch_callback_def
        split: reason.splits jsval.splits)
qed

text \<open>
  Deliveries and the map of pending requests: delivering a result for an identifier that
  has no pending entry raises an error and leaves the gateway as it was; delivering a
  result for a pending identifier removes exactly that entry, so that a second delivery
  for the same identifier raises the error.  The callbacks that \<open>doDispatch\<close> chains on
  the promise of a dispatch end with an error, too, when the identifier has no pending
  entry.
\<close>

lemma handleLambdaResult_correlation:
  "(pendingRequests g id' = None \<longrightarrow>
      handleLambdaResult P id' result g =
        (Inl (Error ''response without request: should never happen''), g)) \<and>
   (pendingRequests g id' \<noteq> None \<longrightarrow>
      pendingRequests (snd (handleLambdaResult P id' result g)) = (pendingRequests g)(id' := None) \<and>
      fst (handleLambdaResult P id' result' (snd (handleLambdaResult P id' result g))) =
        Inl (Error ''response without request: should never happen'')) \<and>
   (pendingRequests g id' = None \<and> pr \<noteq> Pending \<longrightarrow>
      (\<exists>e. fst (settled P id' pr g) = Inl e))"
proof (intro conjI impI)
  assume "pendingRequests g id' = None"
  then show "handleLambdaResult P id' result g =
      (Inl (Error ''response without request: should never happen''), g)"
    by (rule handleLambdaResult_unknown)
next
  assume "pendingRequests g id' \<noteq> None"
  then obtain pending where p: "pendingRequests g id' = Some pending"
    by blast
  show gone: "pendingRequests (snd (handleLambdaResult P id' result g)) = (pendingRequests g)(id' := None)"
    using p by (rule handleLambdaResult_removes)
  have "pendingRequests (snd (handleLambdaResult P id' result g)) id' = None"
    by (simp add: gone)
  then show "fst (handleLambdaResult P id' result' (snd (handleLambdaResult P id' result g))) =
      Inl (Error ''response without request: should never happen'')"
    by (simp add: handleLambdaResult_unknown)
next
  assume "pendingRequests g id' = None \<and> pr \<noteq> Pending"
  then show "\<exists>e. fst (settled P id' pr g) = Inl e"
    by (rule settled_unknown)
qed

lemma handleLambdaResult_correlation_instance:
  "pendingRequests demo_gateway ''id1'' \<noteq> None \<and>
   pendingRequests (snd (handleLambdaResult demo_platform ''id1'' forbidden_result demo_gateway)) ''id1'' = None \<and>
   fst (handleLambdaResult demo_platform ''id1'' forbidden_result
          (snd (handleLambdaResult demo_platform ''id1'' forbidden_result demo_gateway))) =
     Inl (Error ''response without request: should never happen'') \<and>
   pendingRequests demo_gateway ''id2'' = None \<and>
   handleLambdaResult demo_platform ''id2'' forbidden_result demo_gateway =
     (Inl (Error ''response without request: should never happen''), demo_gateway)"
proof -
  have known: "pendingRequests demo_gateway ''id1'' \<noteq> None"
    by (simp add: demo_gateway_def)
  have unknown: "pendingRequests demo_gateway ''id2'' = None"
    by (simp add: demo_gateway_def)
  from handleLambdaResult_correlation
    [of demo_gateway "''id1''" demo_platform forbidden_result forbidden_result Pending]
    handleLambdaResult_correlation
    [of demo_gateway "''id2''" demo_platform forbidden_result forbidden_result Pending]
    known unknown
  show ?thesis by simp
qed

text \<open>
  C6. Routing miss: when the pathname of the event matches no registered function,
  dispatch resolves at once with the status 403 and the body \<open>{"message":"Forbidden"}\<close>,
  and the gateway is unchanged: no process is created.
\<close>

theorem dispatch_routing_miss:
  assumes "\<not> nullish eventObject"
    and "url_pathname P (js_get eventObject ''path'') = Some pathname"
    and "matchRoute (map (\<lambda>f. function_objs g ! f) (functions g)) pathname = None"
  shows "dispatch P id' eventObject g = (Settled (Resolved forbidden_result), g) \<and>
         js_get forbidden_result ''statusCode'' = JNum 403 \<and>
         js_get forbidden_result ''body'' = JStr forbidden_body \<and>
         proc_objs (snd (dispatch P id' eventObject g)) = proc_objs g"
  using assms by (simp add: dispatch_def forbidden_result_def js_get_def)

theorem dispatch_routing_miss_witness:
  "dispatch demo_platform ''id1'' (JObj [(''path'', JStr ''/nope'')]) demo_gateway =
     (Settled (Resolved forbidden_result), demo_gateway)"
proof -
  have a: "\<not> nullish (JObj [(''path'', JStr ''/nope'')])"
    by (simp add: nullish_def)
  have b: "url_pathname demo_platform (js_get (JObj [(''path'', JStr ''/nope'')]) ''path'') = Some ''/nope''"
    by (simp add: demo_platform_def js_get_def)
  have c: "matchRoute (map (\<lambda>f. function_objs demo_gateway ! f) (functions demo_gateway)) ''/nope'' = None"
    by (simp add: demo_gateway_def matchRoute_def matchRoute_test_def endsWith_def)
  from dispatch_routing_miss [OF a b c, of "''id1''"] show ?thesis by simp
qed

section \<open>Properties of the result conversion\<close>

lemma setHeaders_accepted:
  "list_all (\<lambda>k. header_ok P k (js_get obj k)) ks \<Longrightarrow>
   setHeaders P obj ks r = (Inr (), r\<lparr>headers := headers r @ map (\<lambda>k. (k, js_get obj k)) ks\<rparr>)"
  by (induction ks arbitrary: r) (simp_all add: setHeader_def)

lemma truthy_not_nullish: "truthy v \<Longrightarrow> \<not> nullish v"
  by (auto simp: nullish_def)

lemma js_get_nullish: "nullish v \<Longrightarrow> js_get v k = JUndefined"
  by (auto simp: nullish_def js_get_def)

lemma write_result_base64:
  assumes flag: "truthy (js_get result ''isBase64Encoded'')"
    and hs: "headers_accepted P (js_get result ''headers'')"
    and mv: "truthy (js_get result ''multiValueHeaders'') \<longrightarrow>
             headers_accepted P (js_get result ''multiValueHeaders'')"
    and fin: "end_ok P (JNum 400) (JStr forbidden_body)"
  shows "fst (write_result P result r0) = Inr () \<and>
         statusCode (snd (write_result P result r0)) = JNum 400 \<and>
         ended (snd (write_result P result r0)) = Some (JStr forbidden_body)"
proof -
  have nn: "\<not> nullish result"
    using flag js_get_nullish [of result "''isBase64Encoded''"] by auto
  from hs obtain ks where ks: "object_keys (js_get result ''headers'') = Inr ks"
    and ok: "list_all (\<lambda>k. header_ok P k (js_get (js_get result ''headers'') k)) ks"
    by (auto simp: headers_accepted_def split: sum.splits)
  show ?thesis
  proof (cases "truthy (js_get result ''multiValueHeaders'')")
    case True
    with mv obtain mks where mks: "object_keys (js_get result ''multiValueHeaders'') = Inr mks"
      and mok: "list_all (\<lambda>k. header_ok P k (js_get (js_get result ''multiValueHeaders'') k)) mks"
      by (auto simp: headers_accepted_def split: sum.splits)
    show ?thesis
      using nn flag fin True
      by (simp add: write_result_def Let_def ks mks setHeaders_accepted [OF ok]
          setHeaders_accepted [OF mok] end_response_def)
  next
    case False
    then show ?thesis
      using nn flag fin
      by (simp add: write_result_def Let_def ks setHeaders_accepted [OF ok] end_response_def)
  qed
qed

text \<open>
  The override for a result whose headers can be applied: when a result whose
  \<open>isBase64Encoded\<close> flag is true is delivered for a pending request, and the HTTP
  library accepts the headers of the result and the status 400, the response ends with
  the status 400 and the body \<open>{"message":"Forbidden"}\<close>, whatever status code and body
  the result carries.
\<close>

lemma base64_override_applied:
  assumes "pendingRequests g id' = Some pending"
    and "res pending < length (response_objs g)"
    and "truthy (js_get result ''isBase64Encoded'')"
    and "headers_accepted P (js_get result ''headers'')"
    and "truthy (js_get result ''multiValueHeaders'') \<longrightarrow>
         headers_accepted P (js_get result ''multiValueHeaders'')"
    and "end_ok P (JNum 400) (JStr forbidden_body)"
  shows "fst (handleLambdaResult P id' result g) = Inr () \<and>
         statusCode (response_objs (snd (handleLambdaResult P id' result g)) ! res pending) = JNum 400 \<and>
         ended (response_objs (snd (handleLambdaResult P id' result g)) ! res pending) =
           Some (JStr forbidden_body)"
  using assms(2) write_result_base64 [OF assms(3-6), of "response_objs g ! res pending"]
  by (simp add: handleLambdaResult_known_outcome [OF assms(1)])

lemma base64_override_applied_instance:
  "fst (handleLambdaResult demo_platform ''id1''
          (JObj [(''isBase64Encoded'', JBool True), (''statusCode'', JNum 200),
                 (''headers'', JObj [(''Content-Type'', JStr ''text/plain'')]),
                 (''body'', JStr ''aGk='')]) demo_gateway) = Inr () \<and>
   statusCode (response_objs (snd (handleLambdaResult demo_platform ''id1''
          (JObj [(''isBase64Encoded'', JBool True), (''statusCode'', JNum 200),
                 (''headers'', JObj [(''Content-Type'', JStr ''text/plain'')]),
                 (''body'', JStr ''aGk='')]) demo_gateway)) ! 0) = JNum 400 \<and>
   ended (response_objs (snd (handleLambdaResult demo_platform ''id1''
          (JObj [(''isBase64Encoded'', JBool True), (''statusCode'', JNum 200),
                 (''headers'', JObj [(''Content-Type'', JStr ''text/plain'')]),
                 (''body'', JStr ''aGk='')]) demo_gateway)) ! 0) = Some (JStr forbidden_body)"
proof -
  let ?r = "JObj [(''isBase64Encoded'', JBool True), (''statusCode'', JNum 200),
                  (''headers'', JObj [(''Content-Type'', JStr ''text/plain'')]),
                  (''body'', JStr ''aGk='')]"
  let ?pe = "\<lparr>req = 0, res = 0, pending_id = ''id1''\<rparr>"
  have a: "pendingRequests demo_gateway ''id1'' = Some ?pe"
    by (simp add: demo_gateway_def)
  have b: "res ?pe < length (response_objs demo_gateway)"
    by (simp add: demo_gateway_def)
  have c: "truthy (js_get ?r ''isBase64Encoded'')"
    by (simp add: js_get_def)
  have d: "headers_accepted demo_platform (js_get ?r ''headers'')"
    by (simp add: js_get_def headers_accepted_def object_keys_def nullish_def demo_platform_def)
  have e: "truthy (js_get ?r ''multiValueHeaders'') \<longrightarrow>
           headers_accepted demo_platform (js_get ?r ''multiValueHeaders'')"
    by (simp add: js_get_def)
  have f: "end_ok demo_platform (JNum 400) (JStr forbidden_body)"
    by (simp add: demo_platform_def)
  from base64_override_applied [OF a b c d e f] show ?thesis by simp
qed

section \<open>Properties of the IPC protocol\<close>

lemma checkResult_null_headers: "checkResult null_headers_result"
  by (simp add: checkResult_def null_headers_result_def js_get_def)

lemma write_result_null_headers:
  "write_result P null_headers_result r0 = (Inl (TypeError ''Object.keys''), r0\<lparr>statusCode := JNum 200\<rparr>)"
  by (simp add: write_result_def null_headers_result_def js_get_def nullish_def object_keys_def)

text \<open>
  C10. A result whose \<open>headers\<close> field is \<open>null\<close> passes the shape check, and applying
  it to a pending request raises a TypeError at \<open>Object.keys(result.headers)\<close>: the
  pending entry is removed, the response never ends, and the error handler of
  \<open>doDispatch\<close> raises in turn.
\<close>

theorem null_headers_pass_check_and_raise:
  "checkResult null_headers_result \<and>
   (pendingRequests g id' = Some pending \<and> res pending < length (response_objs g) \<longrightarrow>
      fst (handleLambdaResult P id' null_headers_result g) = Inl (TypeError ''Object.keys'') \<and>
      ended (response_objs (snd (handleLambdaResult P id' null_headers_result g)) ! res pending) =
        ended (response_objs g ! res pending) \<and>
      pendingRequests (snd (handleLambdaResult P id' null_headers_result g)) id' = None \<and>
      fst (settled P id' (Resolved null_headers_result) g) = Inl (TypeError ''err.error.split''))"
proof (intro conjI impI)
  show "checkResult null_headers_result"
    by (rule checkResult_null_headers)
next
  assume a: "pendingRequests g id' = Some pending \<and> res pending < length (response_objs g)"
  then have p: "pendingRequests g id' = Some pending" and r: "res pending < length (response_objs g)"
    by simp_all
  show "fst (handleLambdaResult P id' null_headers_result g) = Inl (TypeError ''Object.keys'')"
    by (simp add: handleLambdaResult_known_outcome [OF p] write_result_null_headers)
  show "ended (response_objs (snd (handleLambdaResult P id' null_headers_result g)) ! res pending) =
        ended (response_objs g ! res pending)"
    using r by (simp add: handleLambdaResult_known_outcome [OF p] write_result_null_headers)
  show "pendingRequests (snd (handleLambdaResult P id' null_headers_result g)) id' = None"
    by (simp add: handleLambdaResult_removes [OF p])
  show "fst (settled P id' (Resolved null_headers_result) g) = Inl (TypeError ''err.error.split'')"
    by (simp add: settled_def handleLambdaResult_known_outcome [OF p] write_result_null_headers
        catch_callback_def)
qed

theorem null_headers_pass_check_and_raise_witness:
  "checkResult null_headers_result \<and>
   fst (handleLambdaResult demo_platform ''id1'' null_headers_result demo_gateway) =
     Inl (TypeError ''Object.keys'') \<and>
   ended (response_objs (snd (handleLambdaResult demo_platform ''id1'' null_headers_result demo_gateway)) ! 0) = None"
proof -
  let ?pe = "\<lparr>req = 0, res = 0, pending_id = ''id1''\<rparr>"
  have a: "pendingRequests demo_gateway ''id1'' = Some ?pe \<and> res ?pe < length (response_objs demo_gateway)"
    by (simp add: demo_gateway_def)
  have b: "ended (response_objs demo_gateway ! 0) = None"
    by (simp add: demo_gateway_def)
  from null_headers_pass_check_and_raise [of demo_gateway "''id1''" ?pe demo_platform] a b
  show ?thesis by simp
qed

text \<open>
  C2 (as amended). The message handed to the process is
  \<open>{message: "event", id, eventObject}\<close>.  A message from the process is accepted, and
  its \<open>result\<close> field becomes the result of the invocation, exactly when it is an
  object other than \<open>null\<close> whose field \<open>message\<close> is the string \<open>result\<close>, whose
  field \<open>id\<close> is a string and whose field \<open>result\<close> passes the shape check; no other
  field is looked at.  Every other message makes the listener raise an error.
\<close>

theorem ipc_wire_contract:
  "sent (proc_objs (snd (request w id' eventObject g)) ! fst (request w id' eventObject g)) =
     [JObj [(''message'', JStr ''event''), (''id'', JStr id'), (''eventObject'', eventObject)]] \<and>
   (typeof msg = TObject \<and> msg \<noteq> JNull \<and> js_get msg ''message'' = JStr ''result'' \<and>
    typeof (js_get msg ''id'') = TString \<and> checkResult (js_get msg ''result'') \<longrightarrow>
      message_listener msg p =
        Inr (p\<lparr>ready := settle (ready p) (Resolved (js_get msg ''result'')),
               kills := kills p @ [0]\<rparr>)) \<and>
   (\<not> (typeof msg = TObject \<and> msg \<noteq> JNull \<and> js_get msg ''message'' = JStr ''result'' \<and>
       typeof (js_get msg ''id'') = TString \<and> checkResult (js_get msg ''result'')) \<longrightarrow>
      (\<exists>e. message_listener msg p = Inl e))"
proof (intro conjI impI)
  show "sent (proc_objs (snd (request w id' eventObject g)) ! fst (request w id' eventObject g)) =
     [JObj [(''message'', JStr ''event''), (''id'', JStr id'), (''eventObject'', eventObject)]]"
    by (simp add: request_def Let_def event_message_def)
next
  assume "typeof msg = TObject \<and> msg \<noteq> JNull \<and> js_get msg ''message'' = JStr ''result'' \<and>
    typeof (js_get msg ''id'') = TString \<and> checkResult (js_get msg ''result'')"
  then show "message_listener msg p =
        Inr (p\<lparr>ready := settle (ready p) (Resolved (js_get msg ''result'')),
               kills := kills p @ [0]\<rparr>)"
    by (simp add: message_listener_def Let_def)
next
  assume "\<not> (typeof msg = TObject \<and> msg \<noteq> JNull \<and> js_get msg ''message'' = JStr ''result'' \<and>
       typeof (js_get msg ''id'') = TString \<and> checkResult (js_get msg ''result''))"
  then show "\<exists>e. message_listener msg p = Inl e"
    by (auto simp: message_listener_def Let_def)
qed

theorem ipc_wire_contract_witness:
  "message_listener (JObj [(''message'', JStr ''result''), (''id'', JStr ''id1''), (''result'', ok_result)])
     demo_proc = Inr (demo_proc\<lparr>ready := Resolved ok_result, kills := [0]\<rparr>) \<and>
   (\<exists>e. message_listener (JStr ''result'') demo_proc = Inl e) \<and>
   sent (proc_objs (snd (request 0 ''id1'' JNull demo_gateway)) ! fst (request 0 ''id1'' JNull demo_gateway)) =
     [JObj [(''message'', JStr ''event''), (''id'', JStr ''id1''), (''eventObject'', JNull)]]"
proof -
  let ?m = "JObj [(''message'', JStr ''result''), (''id'', JStr ''id1''), (''result'', ok_result)]"
  have ok: "checkResult ok_result"
    by (simp add: checkResult_def ok_result_def js_get_def)
  have shape: "typeof ?m = TObject \<and> ?m \<noteq> JNull \<and> js_get ?m ''message'' = JStr ''result'' \<and>
    typeof (js_get ?m ''id'') = TString \<and> checkResult (js_get ?m ''result'')"
    using ok by (simp add: js_get_def)
  have get: "js_get ?m ''result'' = ok_result"
    by (simp add: js_get_def)
  have bad: "\<not> (typeof (JStr ''result'') = TObject \<and> JStr ''result'' \<noteq> JNull \<and>
       js_get (JStr ''result'') ''message'' = JStr ''result'' \<and>
       typeof (js_get (JStr ''result'') ''id'') = TString \<and>
       checkResult (js_get (JStr ''result'') ''result''))"
    by simp
  have st: "demo_proc\<lparr>ready := settle (ready demo_proc) (Resolved ok_result),
                      kills := kills demo_proc @ [0]\<rparr> =
            demo_proc\<lparr>ready := Resolved ok_result, kills := [0]\<rparr>"
    by (simp add: demo_proc_def settle_def)
  from ipc_wire_contract [of 0 "''id1''" JNull demo_gateway ?m demo_proc] shape get st
  have first: "message_listener ?m demo_proc = Inr (demo_proc\<lparr>ready := Resolved ok_result, kills := [0]\<rparr>)"
    by simp
  from ipc_wire_contract [of 0 "''id1''" JNull demo_gateway "JStr ''result''" demo_proc] bad
  have second: "\<exists>e. message_listener (JStr ''result'') demo_proc = Inl e"
    by blast
  from ipc_wire_contract [of 0 "''id1''" JNull demo_gateway ?m demo_proc]
  have third: "sent (proc_objs (snd (request 0 ''id1'' JNull demo_gateway)) !
                 fst (request 0 ''id1'' JNull demo_gateway)) =
     [JObj [(''message'', JStr ''event''), (''id'', JStr ''id1''), (''eventObject'', JNull)]]"
    by blast
  from first second third show ?thesis by simp
qed

theorem ipc_wire_contract_counterexample:
  "message_listener
     (JObj [(''type'', JStr ''result''), (''id'', JStr ''id1''), (''result'', ok_result),
            (''memoryUsedBytes'', JNum 1024)]) demo_proc =
     Inl (ErrorWith ''incorrect type field from child process:'' (JStr ''result'')) \<and>
   message_listener
     (JObj [(''message'', JStr ''result''), (''id'', JStr ''id1''), (''result'', ok_result)]) demo_proc =
     Inr (demo_proc\<lparr>ready := Resolved ok_result, kills := [0]\<rparr>) \<and>
   js_get (event_message ''id1'' (JObj [(''path'', JStr ''/hello'')])) ''type'' = JUndefined"
  by (simp add: message_listener_def js_get_def Let_def checkResult_def ok_result_def
      demo_proc_def settle_def event_message_def)

section \<open>Properties of the event flattening\<close>

lemma proto_inherited: "''__proto__'' \<in> set object_prototype_keys"
  by (simp add: object_prototype_keys_def)

lemma own_key_map_of: "(k \<in> fst ` set out) = (map_of out k \<noteq> None)"
  by (simp add: map_of_eq_None_iff)

lemma has_property_own:
  "n \<notin> set object_prototype_keys \<Longrightarrow> has_property out n = (map_of out n \<noteq> None)"
  by (simp add: has_property_def map_of_eq_None_iff)

lemma map_of_replace:
  "map_of (map (\<lambda>(k', x). if k' = k then (k', v) else (k', x)) out) n =
     (if n = k \<and> map_of out k \<noteq> None then Some v else map_of out n)"
proof (induction out arbitrary: n)
  case Nil
  show ?case by simp
next
  case (Cons a out)
  obtain k' x where a: "a = (k', x)" by (cases a)
  show ?case
    unfolding a by (cases "k' = k") (auto simp: Cons.IH)
qed

lemma map_of_assign:
  assumes "k \<noteq> ''__proto__''"
  shows "map_of (assign out k v) n = (if n = k then Some v else map_of out n)"
proof (cases "k \<in> fst ` set out")
  case True
  then have "map_of out k \<noteq> None"
    by (simp add: own_key_map_of)
  with True assms show ?thesis
    by (simp add: assign_def map_of_replace)
next
  case False
  then have "map_of out k = None"
    by (simp add: own_key_map_of)
  with False assms show ?thesis
    by (auto simp: assign_def map_add_def split: option.splits)
qed

lemma map_of_push_at:
  "map_of (push_at out k v) n =
     (if n = k then map_option (\<lambda>vs. vs @ [v]) (map_of out k) else map_of out n)"
proof (induction out arbitrary: n)
  case Nil
  show ?case by (simp add: push_at_def)
next
  case (Cons a out)
  obtain k' x where a: "a = (k', x)" by (cases a)
  show ?case
    unfolding a by (cases "k' = k") (auto simp: Cons.IH [unfolded push_at_def] push_at_def)
qed

lemma map_of_delete_key:
  "map_of (delete_key k out) n = (if n = k then None else map_of out n)"
proof (induction out arbitrary: n)
  case Nil
  show ?case by (simp add: delete_key_def)
next
  case (Cons a out)
  obtain k' x where a: "a = (k', x)" by (cases a)
  show ?case
    unfolding a by (cases "k' = k") (auto simp: Cons.IH [unfolded delete_key_def] delete_key_def)
qed

lemma map_of_fold_delete_key:
  "map_of (fold delete_key dl out) n = (if n \<in> set dl then None else map_of out n)"
  by (induction dl arbitrary: out) (simp_all add: map_of_delete_key)


lemma no_inherited_names_step:
  "no_inherited_names (n # v # h) = (n \<notin> set object_prototype_keys \<and> no_inherited_names h)"
  by (simp add: no_inherited_names_def)

lemma no_inherited_names_single:
  "no_inherited_names [n] = (n \<notin> set object_prototype_keys)"
  by (simp add: no_inherited_names_def)

lemma not_inherited_not_proto: "n \<notin> set object_prototype_keys \<Longrightarrow> n \<noteq> ''__proto__''"
  using proto_inherited by auto

lemma values_of_Cons:
  "values_of ((k, v) # ps) n = (if k = n then v # values_of ps n else values_of ps n)"
  by (simp add: values_of_def)

lemma values_of_Nil: "values_of [] n = []"
  by (simp add: values_of_def)

lemma flattenHeaders_loop_out:
  "no_inherited_names h \<Longrightarrow>
   map_of (fst (flattenHeaders_loop h out dl)) n =
     (case map_of out n of
        Some v \<Rightarrow> Some v
      | None \<Rightarrow> (case values_of (header_pairs h) n of [] \<Rightarrow> None | v # vs \<Rightarrow> Some v))"
proof (induction h out dl rule: flattenHeaders_loop.induct)
  case (1 out deleteList)
  show ?case by (simp add: values_of_Nil split: option.splits)
next
  case (2 headerName out deleteList)
  then have own: "has_property out headerName = (map_of out headerName \<noteq> None)"
    and np: "headerName \<noteq> ''__proto__''"
    by (simp_all add: no_inherited_names_single has_property_own not_inherited_not_proto)
  show ?case
    by (auto simp: own map_of_assign [OF np] values_of_Cons values_of_Nil split: option.splits)
next
  case (3 headerName headerValue h out deleteList)
  from "3.prems" have ni: "headerName \<notin> set object_prototype_keys" and rest: "no_inherited_names h"
    by (simp_all add: no_inherited_names_step)
  have own: "has_property out headerName = (map_of out headerName \<noteq> None)"
    and np: "headerName \<noteq> ''__proto__''"
    using ni by (simp_all add: has_property_own not_inherited_not_proto)
  show ?case
  proof (cases "has_property out headerName")
    case True
    with "3.IH"(2) [OF _ rest] own show ?thesis
      by (auto simp: values_of_Cons split: option.splits)
  next
    case False
    with "3.IH"(1) [OF _ rest] own show ?thesis
      by (auto simp: values_of_Cons map_of_assign [OF np] split: option.splits)
  qed
qed

lemma flattenHeaders_loop_deleteList:
  "no_inherited_names h \<Longrightarrow>
   (n \<in> set (snd (flattenHeaders_loop h out dl))) =
     (n \<in> set dl \<or> (map_of out n \<noteq> None \<and> values_of (header_pairs h) n \<noteq> []) \<or>
      2 \<le> length (values_of (header_pairs h) n))"
proof (induction h out dl rule: flattenHeaders_loop.induct)
  case (1 out deleteList)
  show ?case by (simp add: values_of_Nil)
next
  case (2 headerName out deleteList)
  then have own: "has_property out headerName = (map_of out headerName \<noteq> None)"
    by (simp add: no_inherited_names_single has_property_own)
  show ?case
    by (auto simp: own values_of_Cons values_of_Nil)
next
  case (3 headerName headerValue h out deleteList)
  from "3.prems" have ni: "headerName \<notin> set object_prototype_keys" and rest: "no_inherited_names h"
    by (simp_all add: no_inherited_names_step)
  have own: "has_property out headerName = (map_of out headerName \<noteq> None)"
    and np: "headerName \<noteq> ''__proto__''"
    using ni by (simp_all add: has_property_own not_inherited_not_proto)
  show ?case
  proof (cases "has_property out headerName")
    case True
    with "3.IH"(2) [OF _ rest] own show ?thesis
      by (auto simp: values_of_Cons)
  next
    case False
    with "3.IH"(1) [OF _ rest] own show ?thesis
      by (auto simp: values_of_Cons map_of_assign [OF np] Suc_le_eq)
  qed
qed

lemma flattenHeaders_single:
  assumes "no_inherited_names h"
  shows "map_of (flattenHeaders h) n =
     (case values_of (header_pairs h) n of [v] \<Rightarrow> Some v | _ \<Rightarrow> None)"
proof -
  have "map_of (flattenHeaders h) n =
      (if n \<in> set (snd (flattenHeaders_loop h [] [])) then None
       else map_of (fst (flattenHeaders_loop h [] [])) n)"
    by (simp add: flattenHeaders_def map_of_fold_delete_key split: prod.splits)
  then show ?thesis
    by (simp add: flattenHeaders_loop_out [OF assms] flattenHeaders_loop_deleteList [OF assms]
        split: list.splits)
qed


lemma multiValueHeaders_loop_all:
  "no_inherited_names h \<Longrightarrow>
   \<exists>out'. multiValueHeaders_loop h out = Inr out' \<and>
     (\<forall>n. map_of out' n =
        (case map_of out n of
           None \<Rightarrow> (case values_of (header_pairs h) n of [] \<Rightarrow> None | v # vs \<Rightarrow> Some (v # vs))
         | Some ws \<Rightarrow> Some (ws @ values_of (header_pairs h) n)))"
proof (induction h out rule: multiValueHeaders_loop.induct)
  case (1 out)
  show ?case by (simp add: values_of_Nil split: option.splits)
next
  case (2 headerName out)
  then have own: "has_property out headerName = (map_of out headerName \<noteq> None)"
    and np: "headerName \<noteq> ''__proto__''"
    by (simp_all add: no_inherited_names_single has_property_own not_inherited_not_proto)
  show ?case
    by (auto simp: own map_of_assign [OF np] map_of_push_at values_of_Cons values_of_Nil
        split: option.splits)
next
  case (3 headerName headerValue h out)
  from "3.prems" have ni: "headerName \<notin> set object_prototype_keys" and rest: "no_inherited_names h"
    by (simp_all add: no_inherited_names_step)
  have own: "has_property out headerName = (map_of out headerName \<noteq> None)"
    and np: "headerName \<noteq> ''__proto__''"
    using ni by (simp_all add: has_property_own not_inherited_not_proto)
  show ?case
  proof (cases "map_of out headerName")
    case None
    then have fresh: "\<not> has_property out headerName"
      by (simp add: own)
    from "3.IH"(1) [OF fresh rest]
    obtain out' where run: "multiValueHeaders_loop h (assign out headerName [Some headerValue]) = Inr out'"
      and content: "\<And>n. map_of out' n =
        (case map_of (assign out headerName [Some headerValue]) n of
           None \<Rightarrow> (case values_of (header_pairs h) n of [] \<Rightarrow> None | v # vs \<Rightarrow> Some (v # vs))
         | Some ws \<Rightarrow> Some (ws @ values_of (header_pairs h) n))"
      by blast
    have "multiValueHeaders_loop (headerName # headerValue # h) out = Inr out'"
      using fresh run by simp
    moreover have "\<forall>n. map_of out' n =
        (case map_of out n of
           None \<Rightarrow> (case values_of (header_pairs (headerName # headerValue # h)) n of
                      [] \<Rightarrow> None | v # vs \<Rightarrow> Some (v # vs))
         | Some ws \<Rightarrow> Some (ws @ values_of (header_pairs (headerName # headerValue # h)) n))"
      using None by (auto simp: content map_of_assign [OF np] values_of_Cons split: option.splits)
    ultimately show ?thesis by blast
  next
    case (Some ws)
    then have present: "\<not> \<not> has_property out headerName"
      by (simp add: own)
    from "3.IH"(2) [OF present Some rest]
    obtain out' where run: "multiValueHeaders_loop h (push_at out headerName (Some headerValue)) = Inr out'"
      and content: "\<And>n. map_of out' n =
        (case map_of (push_at out headerName (Some headerValue)) n of
           None \<Rightarrow> (case values_of (header_pairs h) n of [] \<Rightarrow> None | v # vs \<Rightarrow> Some (v # vs))
         | Some ws \<Rightarrow> Some (ws @ values_of (header_pairs h) n))"
      by blast
    have "multiValueHeaders_loop (headerName # headerValue # h) out = Inr out'"
      using present Some run by simp
    moreover have "\<forall>n. map_of out' n =
        (case map_of out n of
           None \<Rightarrow> (case values_of (header_pairs (headerName # headerValue # h)) n of
                      [] \<Rightarrow> None | v # vs \<Rightarrow> Some (v # vs))
         | Some ws \<Rightarrow> Some (ws @ values_of (header_pairs (headerName # headerValue # h)) n))"
      using Some by (auto simp: content map_of_push_at values_of_Cons split: option.splits)
    ultimately show ?thesis by blast
  qed
qed

lemma fold_assign:
  assumes "distinct (map fst qs)" and "''__proto__'' \<notin> fst ` set qs"
  shows "map_of (fold (\<lambda>(key, v) out. assign out key (f v)) qs out) n =
     (case map_of qs n of Some v \<Rightarrow> Some (f v) | None \<Rightarrow> map_of out n)"
  using assms
proof (induction qs arbitrary: out)
  case Nil
  show ?case by simp
next
  case (Cons a qs)
  obtain k v where a: "a = (k, v)" by (cases a)
  from Cons.prems have np: "k \<noteq> ''__proto__''" and d: "distinct (map fst qs)"
    and np': "''__proto__'' \<notin> fst ` set qs" and fresh: "map_of qs k = None"
    by (auto simp: a map_of_eq_None_iff)
  show ?case
    using fresh by (auto simp: a Cons.IH [OF d np'] map_of_assign [OF np] split: option.splits)
qed

lemma multiValueObject_assign:
  "multiValueObject h = fold (\<lambda>(key, v) out. assign out key (all_values v)) h []"
proof -
  have "(\<lambda>(key, v) out. case v of Single s \<Rightarrow> assign out key [s] | Multi vs \<Rightarrow> assign out key vs) =
        (\<lambda>(key, v) out. assign out key (all_values v))"
    by (auto simp: fun_eq_iff all_values_def split: qsval.splits)
  then show ?thesis
    by (simp add: multiValueObject_def)
qed

lemma last_value_Multi: "last_value (Multi (vs @ [v])) = Some v"
  by (simp add: last_value_def nth_append)

text \<open>
  C3 (as amended). For a raw header list whose names are not names of members of
  \<open>Object.prototype\<close>: the single-valued headers hold exactly the names that occur
  once, each with its value, and a name that is repeated is left out altogether; the
  multi-valued headers hold, for every name, all its values in the order of the list.
  For a parsed query object without the key \<open>__proto__\<close>: the single-valued query
  parameters hold, for every key, the last of its values, and the multi-valued ones all
  its values in order.
\<close>

theorem event_flattening:
  assumes "no_inherited_names h"
    and "distinct (map fst qs)"
    and "''__proto__'' \<notin> fst ` set qs"
  shows "map_of (flattenHeaders h) n =
           (case values_of (header_pairs h) n of [v] \<Rightarrow> Some v | _ \<Rightarrow> None) \<and>
         (\<exists>mv. multiValueHeaders h = Inr mv \<and>
            (\<forall>m. map_of mv m =
               (case values_of (header_pairs h) m of [] \<Rightarrow> None | v # vs \<Rightarrow> Some (v # vs)))) \<and>
         map_of (singleValueQueryString qs) k = map_option last_value (map_of qs k) \<and>
         map_of (multiValueObject qs) k = map_option all_values (map_of qs k) \<and>
         last_value (Single s) = Some s \<and>
         last_value (Multi (vs @ [v])) = Some v"
proof (intro conjI)
  show "map_of (flattenHeaders h) n =
      (case values_of (header_pairs h) n of [v] \<Rightarrow> Some v | _ \<Rightarrow> None)"
    using assms(1) by (rule flattenHeaders_single)
  show "\<exists>mv. multiValueHeaders h = Inr mv \<and>
      (\<forall>m. map_of mv m =
         (case values_of (header_pairs h) m of [] \<Rightarrow> None | v # vs \<Rightarrow> Some (v # vs)))"
    using multiValueHeaders_loop_all [OF assms(1), of "[]"] by (simp add: multiValueHeaders_def)
  show "map_of (singleValueQueryString qs) k = map_option last_value (map_of qs k)"
    by (simp add: singleValueQueryString_def fold_assign [OF assms(2,3)] split: option.splits)
  show "map_of (multiValueObject qs) k = map_option all_values (map_of qs k)"
    by (simp add: multiValueObject_assign fold_assign [OF assms(2,3)] split: option.splits)
  show "last_value (Single s) = Some s"
    by (simp add: last_value_def)
  show "last_value (Multi (vs @ [v])) = Some v"
    by (rule last_value_Multi)
qed

theorem event_flattening_witness:
  "map_of (flattenHeaders [''X'', ''a'', ''X'', ''b'', ''Y'', ''c'']) ''X'' = None \<and>
   map_of (flattenHeaders [''X'', ''a'', ''X'', ''b'', ''Y'', ''c'']) ''Y'' = Some (Some ''c'') \<and>
   (\<exists>mv. multiValueHeaders [''X'', ''a'', ''X'', ''b'', ''Y'', ''c''] = Inr mv \<and>
      map_of mv ''X'' = Some [Some ''a'', Some ''b'']) \<and>
   map_of (singleValueQueryString [(''x'', Multi [''a'', ''b'']), (''y'', Single ''c'')]) ''x'' = Some (Some ''b'') \<and>
   map_of (multiValueObject [(''x'', Multi [''a'', ''b'']), (''y'', Single ''c'')]) ''x'' = Some [''a'', ''b'']"
proof -
  let ?h = "[''X'', ''a'', ''X'', ''b'', ''Y'', ''c'']"
  let ?qs = "[(''x'', Multi [''a'', ''b'']), (''y'', Single ''c'')]"
  have a: "no_inherited_names ?h"
    by (simp add: no_inherited_names_def object_prototype_keys_def)
  have b: "distinct (map fst ?qs)"
    by simp
  have c: "''__proto__'' \<notin> fst ` set ?qs"
    by simp
  have x: "values_of (header_pairs ?h) ''X'' = [Some ''a'', Some ''b'']"
    and y: "values_of (header_pairs ?h) ''Y'' = [Some ''c'']"
    by (simp_all add: values_of_def)
  from event_flattening [OF a b c, of "''X''" "''x''"] x
  have first: "map_of (flattenHeaders ?h) ''X'' = None"
    and multi: "\<exists>mv. multiValueHeaders ?h = Inr mv \<and>
      (\<forall>m. map_of mv m =
         (case values_of (header_pairs ?h) m of [] \<Rightarrow> None | v # vs \<Rightarrow> Some (v # vs)))"
    and q1: "map_of (singleValueQueryString ?qs) ''x'' = map_option last_value (map_of ?qs ''x'')"
    and q2: "map_of (multiValueObject ?qs) ''x'' = map_option all_values (map_of ?qs ''x'')"
    by simp_all
  from event_flattening [OF a b c, of "''Y''" "''x''"] y
  have second: "map_of (flattenHeaders ?h) ''Y'' = Some (Some ''c'')"
    by simp
  from multi x have third: "\<exists>mv. multiValueHeaders ?h = Inr mv \<and>
      map_of mv ''X'' = Some [Some ''a'', Some ''b'']"
    by auto
  from q1 have fourth: "map_of (singleValueQueryString ?qs) ''x'' = Some (Some ''b'')"
    by (simp add: last_value_def)
  from q2 have fifth: "map_of (multiValueObject ?qs) ''x'' = Some [''a'', ''b'']"
    by (simp add: all_values_def)
  from first second third fourth fifth show ?thesis by blast
qed

theorem event_flattening_counterexample:
  "flattenHeaders [''X'', ''a'', ''X'', ''b''] = [] \<and>
   map_of (flattenHeaders [''X'', ''a'', ''X'', ''b'']) ''X'' \<noteq> Some (Some ''a'') \<and>
   singleValueQueryString [(''x'', Multi [''a'', ''b''])] = [(''x'', Some ''b'')]"
  by (simp add: flattenHeaders_def has_property_def assign_def delete_key_def
      object_prototype_keys_def singleValueQueryString_def last_value_def)

section \<open>Properties of the gateway lifecycle\<close>

lemma addWorker_ok:
  "addWorker f g =
     Inr (g\<lparr>worker_objs := worker_objs g @
              [\<lparr>procs = [], latestId = None,
                options = \<lparr>opt_env = env g, opt_runtime = ''nodejs:12.x'',
                            opt_handler = handler (function_objs g ! f),
                            opt_entry = entry (function_objs g ! f)\<rparr>\<rparr>],
            function_objs := (function_objs g)
              [f := (function_objs g ! f)\<lparr>worker := Some (length (worker_objs g))\<rparr>],
            functions := functions g @ [f]\<rparr>)"
  by (simp add: addWorker_def new_worker_def startsWith_def Let_def)

lemma forEach_addWorker:
  "\<exists>g'. forEach addWorker fs g = Inr g' \<and>
     functions g' = functions g @ fs \<and>
     length (worker_objs g') = length (worker_objs g) + length fs \<and>
     length (function_objs g') = length (function_objs g) \<and>
     httpServer g' = httpServer g \<and> httpsServer g' = httpsServer g \<and>
     server_objs g' = server_objs g \<and> proc_objs g' = proc_objs g \<and>
     pendingRequests g' = pendingRequests g \<and> response_objs g' = response_objs g"
proof (induction fs arbitrary: g)
  case Nil
  show ?case by simp
next
  case (Cons f fs)
  let ?g1 = "g\<lparr>worker_objs := worker_objs g @
              [\<lparr>procs = [], latestId = None,
                options = \<lparr>opt_env = env g, opt_runtime = ''nodejs:12.x'',
                            opt_handler = handler (function_objs g ! f),
                            opt_entry = entry (function_objs g ! f)\<rparr>\<rparr>],
            function_objs := (function_objs g)
              [f := (function_objs g ! f)\<lparr>worker := Some (length (worker_objs g))\<rparr>],
            functions := functions g @ [f]\<rparr>"
  from Cons.IH [of ?g1] obtain g' where "forEach addWorker fs ?g1 = Inr g'"
    and "functions g' = functions ?g1 @ fs"
    and "length (worker_objs g') = length (worker_objs ?g1) + length fs"
    and "length (function_objs g') = length (function_objs ?g1)"
    and "httpServer g' = httpServer ?g1" and "httpsServer g' = httpsServer ?g1"
    and "server_objs g' = server_objs ?g1" and "proc_objs g' = proc_objs ?g1"
    and "pendingRequests g' = pendingRequests ?g1" and "response_objs g' = response_objs ?g1"
    by blast
  moreover have "forEach addWorker (f # fs) g = forEach addWorker fs ?g1"
    using addWorker_ok [of f g] by simp
  ultimately show ?case
    by simp
qed


lemma new_gateway_routes:
  assumes "o_routes opts = Some routes"
  shows "\<exists>g. new_gateway opts = Inr g \<and> functions g = [0..<length routes] \<and>
           length (worker_objs g) = length routes \<and> length (function_objs g) = length routes \<and>
           httpServer g = Some 0"
proof -
  let ?funs = "map (\<lambda>(key, value). \<lparr>path = key, entry = value, handler = None, worker = None\<rparr>) routes"
  let ?g0 = "\<lparr>httpServer = Some 0,
              httpsServer = (if o_https opts then Some 1 else None),
              env = o_env opts,
              functions = [],
              pendingRequests = Map.empty,
              server_objs = (if o_https opts
                             then [\<lparr>listening = False\<rparr>, \<lparr>listening = False\<rparr>]
                             else [\<lparr>listening = False\<rparr>]),
              function_objs = ?funs, worker_objs = [], proc_objs = [], response_objs = []\<rparr>"
  have run: "new_gateway opts = forEach addWorker [0..<length routes] ?g0"
    using assms by (simp add: new_gateway_def Let_def)
  from forEach_addWorker [of "[0..<length routes]" ?g0] show ?thesis
    unfolding run by auto
qed

lemma bootstrap_registers:
  assumes "httpServer g = Some hs"
  shows "\<exists>g'. bootstrap g = Inr g' \<and> functions g' = functions g @ functions g \<and>
           length (worker_objs g') = length (worker_objs g) + length (functions g) \<and>
           length (function_objs g') = length (function_objs g)"
proof -
  let ?g1 = "case httpsServer g of None \<Rightarrow> g | Some ss \<Rightarrow> listen ss g"
  let ?g2 = "listen hs ?g1"
  have same: "functions ?g2 = functions g" "worker_objs ?g2 = worker_objs g"
    "function_objs ?g2 = function_objs g"
    by (simp_all add: listen_def split: option.splits)
  have run: "bootstrap g = forEach addWorker (functions g) ?g2"
    using assms by (simp add: bootstrap_def Let_def same)
  from forEach_addWorker [of "functions g" ?g2] show ?thesis
    unfolding run by (auto simp: same)
qed

text \<open>
  C9. After the constructor and \<open>bootstrap\<close>, a gateway built from \<open>n\<close> routes has
  \<open>2 * n\<close> entries in its function table (every function object is listed twice) and
  has constructed \<open>2 * n\<close> worker supervisors, not one per registered function.
\<close>

theorem bootstrap_registers_twice:
  assumes "o_routes opts = Some routes"
  shows "\<exists>g g'. new_gateway opts = Inr g \<and> bootstrap g = Inr g' \<and>
           functions g = [0..<length routes] \<and>
           functions g' = [0..<length routes] @ [0..<length routes] \<and>
           length (function_objs g') = length routes \<and>
           length (worker_objs g') = 2 * length routes"
proof -
  from new_gateway_routes [OF assms] obtain g where g: "new_gateway opts = Inr g"
    and fs: "functions g = [0..<length routes]"
    and ws: "length (worker_objs g) = length routes"
    and os: "length (function_objs g) = length routes"
    and hs: "httpServer g = Some 0"
    by blast
  from bootstrap_registers [OF hs] obtain g' where g': "bootstrap g = Inr g'"
    and fs': "functions g' = functions g @ functions g"
    and ws': "length (worker_objs g') = length (worker_objs g) + length (functions g)"
    and os': "length (function_objs g') = length (function_objs g)"
    by blast
  show ?thesis
    using g g' fs fs' ws ws' os os' by simp
qed

theorem bootstrap_registers_twice_witness:
  "\<exists>g g'. new_gateway demo_options = Inr g \<and> bootstrap g = Inr g' \<and>
     functions g = [0] \<and> functions g' = [0, 0] \<and> length (function_objs g') = 1 \<and>
     length (worker_objs g') = 2"
proof -
  have "o_routes demo_options = Some [(''/hello'', ''hello.js'')]"
    by (simp add: demo_options_def)
  from bootstrap_registers_twice [OF this] show ?thesis
    by simp
qed

lemmas lifecycle_defs =
  new_gateway_def bootstrap_def changePort_def close_def addWorker_def new_worker_def
  startsWith_def listen_def server_close_def worker_close_def kill_def request_def spawn_def
  dispatch_def matchRoute_def matchRoute_test_def endsWith_def js_get_def nullish_def
  demo_options_def hello_event_def event_message_def Let_def

lemma demo_started:
  "\<exists>g0. new_gateway demo_options = Inr g0 \<and> bootstrap g0 = Inr started_gateway"
  by (simp add: lifecycle_defs started_gateway_def)

lemma demo_serving:
  "url_pathname P (JStr ''/hello'') = Some ''/hello'' \<Longrightarrow>
   dispatch P ''id1'' hello_event started_gateway = (Awaiting 0, serving_gateway)"
  by (simp add: lifecycle_defs started_gateway_def serving_gateway_def)

lemma demo_close:
  "\<exists>g. close serving_gateway = Inr g \<and> kills (proc_objs g ! 0) = [0] \<and>
     ready (proc_objs g ! 0) = Pending \<and> exit_once (proc_objs g ! 0) \<and>
     procs (worker_objs g ! 1) = [] \<and> httpServer g = None \<and> httpsServer g = None \<and>
     server_objs g = [\<lparr>listening = False\<rparr>]"
  by (simp add: lifecycle_defs started_gateway_def serving_gateway_def)

lemma demo_changePort_close:
  "\<exists>g g'. changePort serving_gateway = Inr g \<and> functions g = [0, 0, 0, 0] \<and>
     worker (function_objs g ! 0) = Some 3 \<and> procs (worker_objs g ! 1) = [0] \<and>
     close g = Inr g' \<and> kills (proc_objs g' ! 0) = [] \<and> procs (worker_objs g' ! 1) = [0]"
  by (simp add: lifecycle_defs started_gateway_def serving_gateway_def)

text \<open>
  C8. Closing a gateway that has a worker process in flight: \<open>close\<close> hands the
  process the signal \<open>0\<close> and nothing else, and empties the tracked set of the
  supervisor; the process has neither exited nor been sent a terminating signal.  After
  \<open>changePort\<close> the supervisor that tracks the process is no longer the one its function
  refers to, and \<open>close\<close> sends the process no signal at all and leaves it in that
  supervisor's tracked set.
\<close>

theorem close_leaves_worker_process:
  assumes "url_pathname P (JStr ''/hello'') = Some ''/hello''"
  shows "\<exists>g0 g1 g2 g3 g4 g5.
           new_gateway demo_options = Inr g0 \<and> bootstrap g0 = Inr g1 \<and>
           dispatch P ''id1'' hello_event g1 = (Awaiting 0, g2) \<and>
           procs (worker_objs g2 ! 1) = [0] \<and>
           close g2 = Inr g3 \<and>
           kills (proc_objs g3 ! 0) = [0] \<and> exit_once (proc_objs g3 ! 0) \<and>
           procs (worker_objs g3 ! 1) = [] \<and>
           changePort g2 = Inr g4 \<and> close g4 = Inr g5 \<and>
           kills (proc_objs g5 ! 0) = [] \<and> procs (worker_objs g5 ! 1) = [0]"
proof -
  from demo_started obtain g0 where "new_gateway demo_options = Inr g0"
    and "bootstrap g0 = Inr started_gateway"
    by blast
  moreover note demo_serving [OF assms]
  moreover have "procs (worker_objs serving_gateway ! 1) = [0]"
    by (simp add: serving_gateway_def)
  moreover from demo_close obtain g3 where "close serving_gateway = Inr g3"
    and "kills (proc_objs g3 ! 0) = [0]" and "exit_once (proc_objs g3 ! 0)"
    and "procs (worker_objs g3 ! 1) = []"
    by blast
  moreover from demo_changePort_close obtain g4 g5 where "changePort serving_gateway = Inr g4"
    and "close g4 = Inr g5" and "kills (proc_objs g5 ! 0) = []"
    and "procs (worker_objs g5 ! 1) = [0]"
    by blast
  ultimately show ?thesis
    by blast
qed

theorem close_leaves_worker_process_witness:
  "\<exists>g3 g4 g5.
     close serving_gateway = Inr g3 \<and> kills (proc_objs g3 ! 0) = [0] \<and>
     changePort serving_gateway = Inr g4 \<and> close g4 = Inr g5 \<and>
     kills (proc_objs g5 ! 0) = [] \<and> procs (worker_objs g5 ! 1) = [0]"
proof -
  have "url_pathname demo_platform (JStr ''/hello'') = Some ''/hello''"
    by (simp add: demo_platform_def)
  from close_leaves_worker_process [OF this] demo_started demo_serving [OF this]
  show ?thesis
    by (metis Inr_inject prod.inject)
qed

section \<open>Properties of the crash translation\<close>

lemma request_proc:
  "fst (request w id' eventObject g) = length (proc_objs g) \<and>
   proc_objs (snd (request w id' eventObject g)) =
     proc_objs g @ [(spawn (worker_objs g ! w) id')\<lparr>sent := [event_message id' eventObject]\<rparr>] \<and>
   pendingRequests (snd (request w id' eventObject g)) = pendingRequests g \<and>
   response_objs (snd (request w id' eventObject g)) = response_objs g"
  by (simp add: request_def Let_def)

lemma proc_emits_exit_uncaptured:
  assumes "v < length (proc_objs g)"
    and "captured (proc_objs g ! v) = None"
    and "exit_once (proc_objs g ! v)"
    and "code \<noteq> Some 0"
  shows "proc_emits P v (Exit code) g =
           (Inl (TypeError ''error.split''),
            g\<lparr>proc_objs := (proc_objs g)[v := (proc_objs g ! v)\<lparr>exit_once := False\<rparr>]\<rparr>)"
  using assms by (simp add: proc_emits_def listeners_def exit_listener_def Let_def)

text \<open>
  C5. A worker process that exits with a non-zero code (or is ended by a signal) before
  it has written to its error stream and before it has sent a message: the exit listener
  raises a TypeError at \<open>error.split\<close>.  The promise of the invocation stays pending,
  no pending entry is removed and no response is written.
\<close>

theorem worker_exit_without_stderr:
  assumes "code \<noteq> Some 0"
  shows "fst (proc_emits P (fst (request w id' eventObject g)) (Exit code)
                (snd (request w id' eventObject g))) = Inl (TypeError ''error.split'') \<and>
         ready (proc_objs (snd (proc_emits P (fst (request w id' eventObject g)) (Exit code)
                (snd (request w id' eventObject g)))) ! fst (request w id' eventObject g)) = Pending \<and>
         pendingRequests (snd (proc_emits P (fst (request w id' eventObject g)) (Exit code)
                (snd (request w id' eventObject g)))) = pendingRequests g \<and>
         response_objs (snd (proc_emits P (fst (request w id' eventObject g)) (Exit code)
                (snd (request w id' eventObject g)))) = response_objs g"
proof -
  let ?p = "fst (request w id' eventObject g)"
  let ?g1 = "snd (request w id' eventObject g)"
  have p: "?p = length (proc_objs g)"
    and ps: "proc_objs ?g1 =
      proc_objs g @ [(spawn (worker_objs g ! w) id')\<lparr>sent := [event_message id' eventObject]\<rparr>]"
    and pend: "pendingRequests ?g1 = pendingRequests g"
    and resp: "response_objs ?g1 = response_objs g"
    using request_proc [of w id' eventObject g] by simp_all
  have a: "?p < length (proc_objs ?g1)"
    by (simp add: p ps)
  have b: "captured (proc_objs ?g1 ! ?p) = None"
    by (simp add: p ps spawn_def)
  have c: "exit_once (proc_objs ?g1 ! ?p)"
    by (simp add: p ps spawn_def)
  have d: "ready (proc_objs ?g1 ! ?p) = Pending"
    by (simp add: p ps spawn_def)
  show ?thesis
    using a d by (simp add: proc_emits_exit_uncaptured [OF a b c assms] pend resp)
qed

theorem worker_exit_without_stderr_witness:
  "fst (proc_emits demo_platform 0 (Exit (Some 1)) serving_gateway) = Inl (TypeError ''error.split'') \<and>
   ready (proc_objs (snd (proc_emits demo_platform 0 (Exit (Some 1)) serving_gateway)) ! 0) = Pending"
proof -
  have r: "request (Suc 0) ''id1'' hello_event started_gateway = (0, serving_gateway)"
    by (simp add: request_def spawn_def started_gateway_def serving_gateway_def Let_def)
  have "Some (1::int) \<noteq> Some 0"
    by simp
  from worker_exit_without_stderr [OF this, of demo_platform "Suc 0" "''id1''" hello_event started_gateway]
  show ?thesis
    by (simp add: r)
qed

lemma end_to_end_crash_without_stderr:
  assumes "url_pathname P (JStr ''/hello'') = Some ''/hello''"
  shows "\<exists>g1 g2.
     doDispatch P 0 0 ''id1'' hello_event
       (started_gateway\<lparr>response_objs := [\<lparr>statusCode = JNum 200, headers = [], ended = None\<rparr>]\<rparr>) =
       (Inr (), g1) \<and>
     proc_emits P 0 (Exit (Some 1)) g1 = (Inl (TypeError ''error.split''), g2) \<and>
     pendingRequests g2 ''id1'' = Some \<lparr>req = 0, res = 0, pending_id = ''id1''\<rparr> \<and>
     response_objs g2 = [\<lparr>statusCode = JNum 200, headers = [], ended = None\<rparr>]"
  using assms
  by (simp add: doDispatch_def dispatch_def request_def spawn_def started_gateway_def Let_def
      matchRoute_def matchRoute_test_def endsWith_def js_get_def nullish_def hello_event_def
      proc_emits_def listeners_def exit_listener_def)

lemma crash_result_unencoded:
  "js_get (crash_result P message stack) ''statusCode'' = JNum 500 \<and>
   js_get (crash_result P message stack) ''headers'' = JObj [] \<and>
   js_get (crash_result P message stack) ''multiValueHeaders'' = JUndefined \<and>
   js_get (crash_result P message stack) ''isBase64Encoded'' = JUndefined \<and>
   js_get (crash_result P message stack) ''body'' =
     JStr (json2 P (JObj [(''message'', message),
                          (''stack'', JArr (map JStr (split_on newline stack)))]))"
  by (simp add: crash_result_def js_get_def)

lemma write_result_crash:
  assumes "end_ok P (JNum 500) (js_get (crash_result P message stack) ''body'')"
  shows "write_result P (crash_result P message stack) r0 =
           (Inr (), r0\<lparr>statusCode := JNum 500,
                       ended := Some (js_get (crash_result P message stack) ''body'')\<rparr>)"
proof -
  have "\<not> nullish (crash_result P message stack)"
    by (simp add: crash_result_def nullish_def)
  then show ?thesis
    using assms
    by (simp add: write_result_def crash_result_unencoded object_keys_def nullish_def
        end_response_def Let_def)
qed

lemma worker_crash_with_stderr:
  assumes v: "v < length (proc_objs g)"
    and cap: "captured (proc_objs g ! v) = Some d"
    and once: "exit_once (proc_objs g ! v)"
    and pend: "ready (proc_objs g ! v) = Pending"
    and code: "code \<noteq> Some 0"
    and entry: "pendingRequests g (request_id (proc_objs g ! v)) = Some pending"
    and r: "res pending < length (response_objs g)"
    and fin: "end_ok P (JNum 500)
                (JStr (json2 P (JObj [(''message'', JStr ''Internal Server Error''),
                                      (''stack'', JArr (map JStr (split_on newline d)))])))"
  shows "fst (proc_emits P v (Exit code) g) = Inr () \<and>
         ready (proc_objs (snd (proc_emits P v (Exit code) g)) ! v) =
           Rejected (Payload (JObj [(''message'', JStr ''Internal Server Error''), (''error'', JStr d)])) \<and>
         statusCode (response_objs (snd (proc_emits P v (Exit code) g)) ! res pending) = JNum 500 \<and>
         ended (response_objs (snd (proc_emits P v (Exit code) g)) ! res pending) =
           Some (JStr (json2 P (JObj [(''message'', JStr ''Internal Server Error''),
                                      (''stack'', JArr (map JStr (split_on newline d)))]))) \<and>
         pendingRequests (snd (proc_emits P v (Exit code) g)) (request_id (proc_objs g ! v)) = None"
proof -
  let ?p = "proc_objs g ! v"
  let ?payload = "JObj [(''message'', JStr ''Internal Server Error''), (''error'', JStr d)]"
  let ?p' = "?p\<lparr>exit_once := False, ready := Rejected (Payload ?payload)\<rparr>"
  let ?g2 = "g\<lparr>proc_objs := (proc_objs g)[v := ?p']\<rparr>"
  let ?cr = "crash_result P (JStr ''Internal Server Error'') d"
  have l: "listeners (Exit code) ?p = (Inr (), ?p')"
    using cap once pend code by (simp add: listeners_def exit_listener_def settle_def)
  have body: "js_get ?cr ''body'' =
      JStr (json2 P (JObj [(''message'', JStr ''Internal Server Error''),
                           (''stack'', JArr (map JStr (split_on newline d)))]))"
    by (simp add: crash_result_unencoded)
  have fin': "end_ok P (JNum 500) (js_get ?cr ''body'')"
    using fin by (simp add: body)
  have entry2: "pendingRequests ?g2 (request_id ?p) = Some pending"
    using entry by simp
  have c: "catch_callback P (request_id ?p) (Payload ?payload) ?g2 =
      handleLambdaResult P (request_id ?p) ?cr ?g2"
    by (simp add: catch_callback_def nullish_def js_get_def)
  have run: "proc_emits P v (Exit code) g = handleLambdaResult P (request_id ?p) ?cr ?g2"
    using pend by (simp add: proc_emits_def l Let_def settled_def c)
  show ?thesis
    unfolding run handleLambdaResult_known_outcome [OF entry2] write_result_crash [OF fin']
    using v r by (simp add: body nth_list_update)
qed

section \<open>Results whose headers cannot be applied\<close>

lemma checkResult_flagged_null_headers: "checkResult flagged_null_headers_result"
  by (simp add: checkResult_def flagged_null_headers_result_def js_get_def)

lemma write_result_flagged_null_headers:
  "write_result P flagged_null_headers_result r0 =
     (Inl (TypeError ''Object.keys''), r0\<lparr>statusCode := JNum 200\<rparr>)"
  by (simp add: write_result_def flagged_null_headers_result_def js_get_def nullish_def
      object_keys_def)

lemma write_result_success_ends:
  "fst (write_result P result r0) = Inr () \<Longrightarrow> ended (snd (write_result P result r0)) \<noteq> None"
  by (auto simp: write_result_def end_response_def Let_def
      split: if_splits sum.splits prod.splits)

lemma delivery_success_ends:
  assumes "pendingRequests g id' = Some pending"
    and "res pending < length (response_objs g)"
    and "fst (handleLambdaResult P id' result g) = Inr ()"
  shows "ended (response_objs (snd (handleLambdaResult P id' result g)) ! res pending) \<noteq> None"
  using assms(2,3) write_result_success_ends [of P result "response_objs g ! res pending"]
  by (simp add: handleLambdaResult_known_outcome [OF assms(1)])

text \<open>
  C4. The result \<open>{isBase64Encoded: true, statusCode: 200, headers: null, body: "hi"}\<close>
  has its binary-encoding flag set and passes the shape check.  Delivered for a pending
  request, it makes \<open>handleLambdaResult\<close> raise a TypeError at
  \<open>Object.keys(result.headers)\<close>, before the override is reached: the status code of
  the response is the 200 of the result, not 400, and the response does not end.
\<close>

theorem flagged_null_headers_no_override:
  "checkResult flagged_null_headers_result \<and>
   truthy (js_get flagged_null_headers_result ''isBase64Encoded'') \<and>
   (pendingRequests g id' = Some pending \<and> res pending < length (response_objs g) \<longrightarrow>
      fst (handleLambdaResult P id' flagged_null_headers_result g) = Inl (TypeError ''Object.keys'') \<and>
      statusCode (response_objs (snd (handleLambdaResult P id' flagged_null_headers_result g)) !
                    res pending) = JNum 200 \<and>
      ended (response_objs (snd (handleLambdaResult P id' flagged_null_headers_result g)) !
               res pending) = ended (response_objs g ! res pending))"
proof (intro conjI impI)
  show "checkResult flagged_null_headers_result"
    by (rule checkResult_flagged_null_headers)
  show "truthy (js_get flagged_null_headers_result ''isBase64Encoded'')"
    by (simp add: flagged_null_headers_result_def js_get_def)
next
  assume a: "pendingRequests g id' = Some pending \<and> res pending < length (response_objs g)"
  then have p: "pendingRequests g id' = Some pending" and r: "res pending < length (response_objs g)"
    by simp_all
  show "fst (handleLambdaResult P id' flagged_null_headers_result g) = Inl (TypeError ''Object.keys'')"
    by (simp add: handleLambdaResult_known_outcome [OF p] write_result_flagged_null_headers)
  show "statusCode (response_objs (snd (handleLambdaResult P id' flagged_null_headers_result g)) !
                    res pending) = JNum 200"
    using r by (simp add: handleLambdaResult_known_outcome [OF p] write_result_flagged_null_headers)
  show "ended (response_objs (snd (handleLambdaResult P id' flagged_null_headers_result g)) !
               res pending) = ended (response_objs g ! res pending)"
    using r by (simp add: handleLambdaResult_known_outcome [OF p] write_result_flagged_null_headers)
qed

theorem flagged_null_headers_no_override_witness:
  "fst (handleLambdaResult demo_platform ''id1'' flagged_null_headers_result demo_gateway) =
     Inl (TypeError ''Object.keys'') \<and>
   statusCode (response_objs (snd (handleLambdaResult demo_platform ''id1''
      flagged_null_headers_result demo_gateway)) ! 0) = JNum 200 \<and>
   ended (response_objs (snd (handleLambdaResult demo_platform ''id1''
      flagged_null_headers_result demo_gateway)) ! 0) = None"
proof -
  let ?pe = "\<lparr>req = 0, res = 0, pending_id = ''id1''\<rparr>"
  have a: "pendingRequests demo_gateway ''id1'' = Some ?pe \<and> res ?pe < length (response_objs demo_gateway)"
    by (simp add: demo_gateway_def)
  have b: "ended (response_objs demo_gateway ! 0) = None"
    by (simp add: demo_gateway_def)
  from flagged_null_headers_no_override [of demo_gateway "''id1''" ?pe demo_platform] a b
  show ?thesis by simp
qed

text \<open>
  C7. Delivering the result \<open>{isBase64Encoded: false, statusCode: 200, headers: null,
  body: "hi"}\<close>, which passes the shape check, for a pending identifier: the entry is
  removed although the delivery raises and the response does not end; the callbacks of
  \<open>doDispatch\<close> end with an error in the same state; and every later delivery for the
  identifier raises the error for a response without request and changes nothing.  The
  entry is gone without any terminal resolution.
\<close>

theorem pending_entry_removed_unresolved:
  "pendingRequests g id' = Some pending \<and> res pending < length (response_objs g) \<longrightarrow>
     pendingRequests (snd (handleLambdaResult P id' null_headers_result g)) id' = None \<and>
     fst (handleLambdaResult P id' null_headers_result g) = Inl (TypeError ''Object.keys'') \<and>
     ended (response_objs (snd (handleLambdaResult P id' null_headers_result g)) ! res pending) =
       ended (response_objs g ! res pending) \<and>
     settled P id' (Resolved null_headers_result) g =
       (Inl (TypeError ''err.error.split''), snd (handleLambdaResult P id' null_headers_result g)) \<and>
     handleLambdaResult P id' result' (snd (handleLambdaResult P id' null_headers_result g)) =
       (Inl (Error ''response without request: should never happen''),
        snd (handleLambdaResult P id' null_headers_result g))"
proof (intro impI)
  assume a: "pendingRequests g id' = Some pending \<and> res pending < length (response_objs g)"
  then have p: "pendingRequests g id' = Some pending" and r: "res pending < length (response_objs g)"
    by simp_all
  define g' where "g' = g\<lparr>pendingRequests := (pendingRequests g)(id' := None),
      response_objs := (response_objs g)
        [res pending := (response_objs g ! res pending)\<lparr>statusCode := JNum 200\<rparr>]\<rparr>"
  have run: "handleLambdaResult P id' null_headers_result g = (Inl (TypeError ''Object.keys''), g')"
    unfolding g'_def
    by (simp add: handleLambdaResult_known_outcome [OF p] write_result_null_headers)
  have gone: "pendingRequests g' id' = None"
    by (simp add: g'_def)
  have open_response: "ended (response_objs g' ! res pending) = ended (response_objs g ! res pending)"
    using r by (simp add: g'_def)
  have callbacks: "settled P id' (Resolved null_headers_result) g =
      (Inl (TypeError ''err.error.split''), g')"
    by (simp add: settled_def run catch_callback_def)
  have later: "handleLambdaResult P id' result' g' =
      (Inl (Error ''response without request: should never happen''), g')"
    using gone by (rule handleLambdaResult_unknown)
  show "pendingRequests (snd (handleLambdaResult P id' null_headers_result g)) id' = None \<and>
     fst (handleLambdaResult P id' null_headers_result g) = Inl (TypeError ''Object.keys'') \<and>
     ended (response_objs (snd (handleLambdaResult P id' null_headers_result g)) ! res pending) =
       ended (response_objs g ! res pending) \<and>
     settled P id' (Resolved null_headers_result) g =
       (Inl (TypeError ''err.error.split''), snd (handleLambdaResult P id' null_headers_result g)) \<and>
     handleLambdaResult P id' result' (snd (handleLambdaResult P id' null_headers_result g)) =
       (Inl (Error ''response without request: should never happen''),
        snd (handleLambdaResult P id' null_headers_result g))"
    unfolding run using gone open_response callbacks later by simp
qed

theorem pending_entry_removed_unresolved_witness:
  "pendingRequests demo_gateway ''id1'' \<noteq> None \<and>
   pendingRequests (snd (handleLambdaResult demo_platform ''id1'' null_headers_result demo_gateway))
     ''id1'' = None \<and>
   ended (response_objs (snd (handleLambdaResult demo_platform ''id1'' null_headers_result
      demo_gateway)) ! 0) = None \<and>
   fst (handleLambdaResult demo_platform ''id1'' ok_result
      (snd (handleLambdaResult demo_platform ''id1'' null_headers_result demo_gateway))) =
     Inl (Error ''response without request: should never happen'')"
proof -
  let ?pe = "\<lparr>req = 0, res = 0, pending_id = ''id1''\<rparr>"
  have a: "pendingRequests demo_gateway ''id1'' = Some ?pe \<and> res ?pe < length (response_objs demo_gateway)"
    by (simp add: demo_gateway_def)
  have b: "ended (response_objs demo_gateway ! 0) = None"
    by (simp add: demo_gateway_def)
  from pending_entry_removed_unresolved [of demo_gateway "''id1''" ?pe demo_platform ok_result] a b
  show ?thesis by simp
qed

end
